theory Spec2Isabelle
  imports Complex_Main "HOL-Library.Word" "HOL-Library.Product_Lexorder"
begin

unbundle bit_operations_syntax

section \<open>Conventions\<close>

text \<open>
  A JavaScript \<open>number\<close> that the code only ever uses as an integer (chunk coordinates,
  buffer dimensions, array indices, the radii a manager works with) is an \<open>int\<close> or a
  \<open>nat\<close>. A \<open>number\<close> that may be fractional (the player position, the operands of
  \<open>floorDiv\<close>) is a \<open>real\<close> that stands for a finite double, and the arithmetic of
  \<open>lib/chunkMath.ts\<close> rounds each of its results to binary64 (\<open>toBinary64\<close> below).
  A radius handed to the constructor or to \<open>computeNeededChunkKeys\<close> may also be \<open>NaN\<close>
  or an infinity: it is a \<open>number\<close> (below). Where the code itself can produce \<open>NaN\<close>
  (reading a chunk key back with \<open>Number\<close>) or \<open>undefined\<close> (reading a typed array out
  of range), the value is an \<open>option\<close> and \<open>None\<close> stands for it.
  A thrown \<open>Error\<close> is the left injection of a sum, carrying the message; a call that
  never returns is the \<open>None\<close> of an \<open>option\<close>.
\<close>

datatype error = Error string

section \<open>IEEE 754 binary64\<close>

text \<open>
  An arithmetic operation on doubles returns the exact result rounded to the nearest
  double, a tie going to the double with the even significand. A double has 53 significant
  bits: for \<open>2 ^ e \<le> |x| < 2 ^ (e + 1)\<close> the doubles around \<open>x\<close> are the multiples of
  \<open>2 ^ (e - 52)\<close>, and below \<open>2 ^ -1022\<close>, among the subnormals, the multiples of
  \<open>2 ^ -1074\<close>. \<open>toBinary64\<close> is this rounding on the reals. A result of magnitude
  \<open>2 ^ 1024\<close> or more is \<open>Infinity\<close> in JavaScript: a quotient \<open>a / b\<close> of doubles
  needs \<open>b < 1\<close> to get there, and this overflow is not modelled.
\<close>

text \<open>The number of binary digits of \<open>n > 0\<close>.\<close>

function bitLength :: "int \<Rightarrow> nat" where
  "bitLength n = (if n \<le> 0 then 0 else Suc (bitLength (n div 2)))"
  by pat_completeness auto

termination
  by (relation "measure nat") auto

declare bitLength.simps [simp del]

text \<open>The exponent \<open>e\<close> of \<open>x \<noteq> 0\<close>: \<open>2 ^ e \<le> |x| < 2 ^ (e + 1)\<close>.\<close>

definition binaryExponent :: "real \<Rightarrow> int" where
  "binaryExponent x =
     (if 1 \<le> \<bar>x\<bar> then int (bitLength \<lfloor>\<bar>x\<bar>\<rfloor>) - 1
      else - int (bitLength (\<lceil>1 / \<bar>x\<bar>\<rceil> - 1)))"

definition roundTiesToEven :: "real \<Rightarrow> int" where
  "roundTiesToEven y =
     (let f = \<lfloor>y\<rfloor>; r = y - of_int f
      in if r < 1 / 2 then f else if r > 1 / 2 then f + 1 else if even f then f else f + 1)"

definition toBinary64 :: "real \<Rightarrow> real" where
  "toBinary64 x =
     (if x = 0 then 0
      else (let ulp = 2 powi (max (binaryExponent x) (- 1022) - 52)
            in of_int (roundTiesToEven (x / ulp)) * ulp))"

section \<open>lib/chunkMath.ts\<close>

text \<open>
  \<open>Math.floor(a / b)\<close>: the quotient is rounded to a double, whose floor is exact. In
  \<open>a - floorDiv(a, b) * b\<close> the product is rounded, then the difference.
\<close>

record ChunkCoord =
  chunk :: int
  local :: real

definition floorDiv :: "real \<Rightarrow> real \<Rightarrow> error + int" where
  "floorDiv a b =
     (if b \<le> 0 then Inl (Error ''floorDiv requires b > 0'')
      else Inr \<lfloor>toBinary64 (a / b)\<rfloor>)"

definition floorMod :: "real \<Rightarrow> real \<Rightarrow> error + real" where
  "floorMod a b =
     (if b \<le> 0 then Inl (Error ''floorMod requires b > 0'')
      else (case floorDiv a b of
              Inl e \<Rightarrow> Inl e
            | Inr q \<Rightarrow> Inr (toBinary64 (a - toBinary64 (of_int q * b)))))"

definition worldToChunk :: "real \<Rightarrow> real \<Rightarrow> error + ChunkCoord" where
  "worldToChunk x chunkSize =
     (if chunkSize \<le> 0 then Inl (Error ''worldToChunk requires chunkSize > 0'')
      else (case floorDiv x chunkSize of
              Inl e \<Rightarrow> Inl e
            | Inr c \<Rightarrow>
                (case floorMod x chunkSize of
                   Inl e \<Rightarrow> Inl e
                 | Inr l \<Rightarrow> Inr \<lparr>chunk = c, local = l\<rparr>)))"

definition chunkKey_digit :: "nat \<Rightarrow> char" where
  "chunkKey_digit n = char_of (48 + n)"

fun Number_toString_nat :: "nat \<Rightarrow> string" where
  "Number_toString_nat n =
     (if n < 10 then [chunkKey_digit n]
      else Number_toString_nat (n div 10) @ [chunkKey_digit (n mod 10)])"

declare Number_toString_nat.simps [simp del]

text \<open>
  The decimal rendering of an integer by a template literal (below \<open>10\<^sup>2\<^sup>1\<close> in
  absolute value, where JavaScript prints every digit).
\<close>

definition Number_toString :: "int \<Rightarrow> string" where
  "Number_toString i =
     (if i < 0 then CHR ''-'' # Number_toString_nat (nat (- i))
      else Number_toString_nat (nat i))"

definition chunkKey :: "int \<Rightarrow> int \<Rightarrow> string" where
  "chunkKey cx cz = Number_toString cx @ '','' @ Number_toString cz"

section \<open>lib/seed.ts\<close>

definition FNV_OFFSET_BASIS :: "32 word" where
  "FNV_OFFSET_BASIS = 0x811c9dc5"

definition FNV_PRIME :: "32 word" where
  "FNV_PRIME = 0x01000193"

text \<open>
  A seed string is the list of its UTF-8 bytes, which is what \<open>TextEncoder.encode\<close>
  hands to the loop; \<open>Math.imul\<close> and \<open>>>> 0\<close> are multiplication of 32-bit words.
\<close>

definition seedToInt :: "string \<Rightarrow> 32 word" where
  "seedToInt seedStr =
     fold (\<lambda>b hash. (hash XOR of_char b) * FNV_PRIME) seedStr FNV_OFFSET_BASIS"

section \<open>workers/mesh.worker.ts: the messages\<close>

record GreedyMeshPayload =
  positions :: "int list"
  normals :: "int list"
  colors :: "real list"
  indices :: "nat list"
  quadCount :: nat
  indexCount :: nat

text \<open>
  The request as the manager builds it: the optional \<open>destroyedDelta\<close> and
  \<open>forceApply\<close>, which the manager never sets, are left out. A coordinate is
  \<open>Number(...)\<close> of a piece of the chunk key: \<open>None\<close> stands for \<open>NaN\<close>.
\<close>

record MeshWorkerRequest =
  req_seedStr :: string
  req_seedInt :: "32 word"
  req_cx :: "int option"
  req_cz :: "int option"

record MeshWorkerResponse =
  key :: string
  res_cx :: int
  res_cz :: int
  mesh :: GreedyMeshPayload
  forceApply :: "bool option"

section \<open>engine/chunkManager.ts\<close>

text \<open>
  Modelled from the spec: \<open>world/chunkConstants\<close> is not among the sources; the chunk
  size is 16 (``world x = -1 with chunk size 16'', ``moving the player to world x=16 with
  chunk size 16 shifts the center to chunk (1,0)'').
\<close>

definition CHUNK_SIZE :: int where
  "CHUNK_SIZE = 16"

definition DEFAULT_ACTIVE_RADIUS :: real where
  "DEFAULT_ACTIVE_RADIUS = 4"

definition DEFAULT_REMOVE_RADIUS :: real where
  "DEFAULT_REMOVE_RADIUS = 6"

subsection \<open>Numbers that may be NaN or infinite\<close>

text \<open>
  A \<open>number\<close> with its three special values; \<open>real number\<close> is a radius as the caller
  gives it, \<open>int number\<close> what \<open>Math.floor\<close> makes of it and what the loop counters and
  the coordinates of \<open>computeNeededChunkKeys\<close> then are. The operations are those of
  IEEE 754 on the special values and exact on the integers.
\<close>

datatype 'a number = NaN | PosInfinity | NegInfinity | Finite 'a

definition Math_floor :: "real number \<Rightarrow> int number" where
  "Math_floor x =
     (case x of
        NaN \<Rightarrow> NaN
      | PosInfinity \<Rightarrow> PosInfinity
      | NegInfinity \<Rightarrow> NegInfinity
      | Finite r \<Rightarrow> Finite \<lfloor>r\<rfloor>)"

text \<open>\<open>Math.max(a, b)\<close>, \<open>Math.abs(a)\<close>, \<open>-a\<close>, \<open>a + b\<close>, \<open>a - b\<close>.\<close>

fun Math_max :: "int number \<Rightarrow> int number \<Rightarrow> int number" where
  "Math_max NaN b = NaN"
| "Math_max a NaN = NaN"
| "Math_max PosInfinity b = PosInfinity"
| "Math_max a PosInfinity = PosInfinity"
| "Math_max NegInfinity b = b"
| "Math_max a NegInfinity = a"
| "Math_max (Finite x) (Finite y) = Finite (max x y)"

fun Math_abs :: "int number \<Rightarrow> int number" where
  "Math_abs NaN = NaN"
| "Math_abs PosInfinity = PosInfinity"
| "Math_abs NegInfinity = PosInfinity"
| "Math_abs (Finite x) = Finite \<bar>x\<bar>"

fun number_neg :: "int number \<Rightarrow> int number" where
  "number_neg NaN = NaN"
| "number_neg PosInfinity = NegInfinity"
| "number_neg NegInfinity = PosInfinity"
| "number_neg (Finite x) = Finite (- x)"

fun number_add :: "int number \<Rightarrow> int number \<Rightarrow> int number" where
  "number_add NaN b = NaN"
| "number_add a NaN = NaN"
| "number_add PosInfinity NegInfinity = NaN"
| "number_add NegInfinity PosInfinity = NaN"
| "number_add PosInfinity b = PosInfinity"
| "number_add a PosInfinity = PosInfinity"
| "number_add NegInfinity b = NegInfinity"
| "number_add a NegInfinity = NegInfinity"
| "number_add (Finite x) (Finite y) = Finite (x + y)"

definition number_sub :: "int number \<Rightarrow> int number \<Rightarrow> int number" where
  "number_sub a b = number_add a (number_neg b)"

text \<open>The comparisons \<open>a < b\<close>, \<open>a <= b\<close> and \<open>a !== b\<close>: with a \<open>NaN\<close> the first two are false.\<close>

fun number_less :: "int number \<Rightarrow> int number \<Rightarrow> bool" where
  "number_less NaN b = False"
| "number_less a NaN = False"
| "number_less PosInfinity b = False"
| "number_less a NegInfinity = False"
| "number_less NegInfinity b = True"
| "number_less a PosInfinity = True"
| "number_less (Finite x) (Finite y) = (x < y)"

fun number_le :: "int number \<Rightarrow> int number \<Rightarrow> bool" where
  "number_le NaN b = False"
| "number_le a NaN = False"
| "number_le NegInfinity b = True"
| "number_le a PosInfinity = True"
| "number_le PosInfinity b = False"
| "number_le a NegInfinity = False"
| "number_le (Finite x) (Finite y) = (x \<le> y)"

fun number_differs :: "int number \<Rightarrow> int number \<Rightarrow> bool" where
  "number_differs NaN b = True"
| "number_differs a NaN = True"
| "number_differs a b = (if a = b then False else True)"

text \<open>A number in a template literal.\<close>

definition Number_toString_number :: "int number \<Rightarrow> string" where
  "Number_toString_number a =
     (case a of
        NaN \<Rightarrow> ''NaN''
      | PosInfinity \<Rightarrow> ''Infinity''
      | NegInfinity \<Rightarrow> ''-Infinity''
      | Finite i \<Rightarrow> Number_toString i)"

subsection \<open>A JavaScript Map\<close>

text \<open>
  A \<open>Map\<close> iterates in insertion order, so it is the list of its entries, oldest first,
  with no key twice. \<open>set\<close> on a present key replaces the value where it stands.
\<close>

type_synonym ('k, 'v) jsmap = "('k \<times> 'v) list"

definition map_keys :: "('k, 'v) jsmap \<Rightarrow> 'k list" where
  "map_keys m = map fst m"

definition map_has :: "('k, 'v) jsmap \<Rightarrow> 'k \<Rightarrow> bool" where
  "map_has m k = (k \<in> set (map_keys m))"

definition map_get :: "('k, 'v) jsmap \<Rightarrow> 'k \<Rightarrow> 'v option" where
  "map_get m k = map_of m k"

definition map_delete :: "('k, 'v) jsmap \<Rightarrow> 'k \<Rightarrow> ('k, 'v) jsmap" where
  "map_delete m k = filter (\<lambda>e. fst e \<noteq> k) m"

fun map_set :: "('k, 'v) jsmap \<Rightarrow> 'k \<Rightarrow> 'v \<Rightarrow> ('k, 'v) jsmap" where
  "map_set [] k v = [(k, v)]"
| "map_set (e # m) k v = (if fst e = k then (k, v) # m else e # map_set m k v)"

text \<open>\<open>new Set(array)\<close>: the elements in order of first occurrence.\<close>

definition Set_new :: "string list \<Rightarrow> string list" where
  "Set_new xs = fold (\<lambda>x s. if x \<in> set s then s else s @ [x]) xs []"

subsection \<open>Chunk keys read back\<close>

fun split_on :: "char \<Rightarrow> string \<Rightarrow> string list" where
  "split_on c [] = [[]]"
| "split_on c (x # xs) =
     (if x = c then [] # split_on c xs
      else (case split_on c xs of
              [] \<Rightarrow> [[x]]
            | y # ys \<Rightarrow> (x # y) # ys))"

definition digit_value :: "char \<Rightarrow> nat option" where
  "digit_value c =
     (let n = (of_char c :: nat) in if 48 \<le> n \<and> n \<le> 57 then Some (n - 48) else None)"

fun parse_digits :: "string \<Rightarrow> nat \<Rightarrow> nat option" where
  "parse_digits [] acc = Some acc"
| "parse_digits (c # cs) acc =
     (case digit_value c of
        None \<Rightarrow> None
      | Some d \<Rightarrow> parse_digits cs (10 * acc + d))"

text \<open>
  \<open>Number(s)\<close> on the strings a chunk key is made of: an optional minus sign and decimal
  digits give the integer, the empty string gives 0, and \<open>None\<close> is \<open>NaN\<close>. The other
  spellings \<open>Number\<close> accepts (white space, a plus sign, a fraction, an exponent, hex,
  \<open>Infinity\<close>) are not produced by \<open>chunkKey\<close> on integers and are read as \<open>NaN\<close> here.
  \<open>Number(undefined)\<close>, for a key with no comma, is \<open>NaN\<close>.
\<close>

definition Number :: "string option \<Rightarrow> int option" where
  "Number raw =
     (case raw of
        None \<Rightarrow> None
      | Some [] \<Rightarrow> Some 0
      | Some (c # cs) \<Rightarrow>
          (if c = CHR ''-''
           then (if cs = [] then None else map_option (\<lambda>n. - int n) (parse_digits cs 0))
           else map_option int (parse_digits (c # cs) 0)))"

text \<open>
  The fields of a \<open>ChunkCoord2D\<close> are integers (\<open>int ChunkCoord2D\<close>) or, inside
  \<open>computeNeededChunkKeys\<close>, whatever its counters make them (\<open>int number ChunkCoord2D\<close>).
\<close>

record 'a ChunkCoord2D =
  cx :: 'a
  cz :: 'a

record ParsedChunkCoord =
  pcx :: "int option"
  pcz :: "int option"

definition array_at :: "'a list \<Rightarrow> nat \<Rightarrow> 'a option" where
  "array_at xs i = (if i < length xs then Some (xs ! i) else None)"

definition parseChunkKey :: "string \<Rightarrow> ParsedChunkCoord" where
  "parseChunkKey k =
     (let parts = split_on CHR '','' k;
          cxRaw = array_at parts 0;
          czRaw = array_at parts 1
      in \<lparr>pcx = Number cxRaw, pcz = Number czRaw\<rparr>)"

definition chebyshevDistance :: "int \<Rightarrow> int \<Rightarrow> int \<Rightarrow> int \<Rightarrow> int" where
  "chebyshevDistance x z centerCx centerCz = max \<bar>x - centerCx\<bar> \<bar>z - centerCz\<bar>"

definition isInRadius :: "int \<Rightarrow> int \<Rightarrow> int \<Rightarrow> int \<Rightarrow> int \<Rightarrow> bool" where
  "isInRadius x z centerCx centerCz radius = (chebyshevDistance x z centerCx centerCz \<le> radius)"

text \<open>
  \<open>isInRadius(coord.cx, coord.cz, centerCx, centerCz, radius)\<close> for the coordinates
  parsed from a key: with a \<open>NaN\<close> coordinate the distance is \<open>NaN\<close> and the comparison
  \<open>NaN <= radius\<close> is false.
\<close>

definition keyInRadius :: "string \<Rightarrow> int \<Rightarrow> int \<Rightarrow> int \<Rightarrow> bool" where
  "keyInRadius k centerCx centerCz radius =
     (let coord = parseChunkKey k
      in case (pcx coord, pcz coord) of
           (Some x, Some z) \<Rightarrow> isInRadius x z centerCx centerCz radius
         | _ \<Rightarrow> False)"

subsection \<open>computeNeededChunkKeys\<close>

text \<open>
  \<open>radius = Math.max(0, Math.floor(activeRadius))\<close> is a non-negative integer, \<open>NaN\<close> or
  \<open>Infinity\<close>, and the counters \<open>dz\<close> and \<open>dx\<close> start at \<open>-radius\<close>. The two \<open>for\<close>
  loops, with the array \<open>coords\<close> they push to: a loop that never ends has no result.
\<close>

partial_function (option) innerLoop ::
    "int \<Rightarrow> int \<Rightarrow> int number \<Rightarrow> int number \<Rightarrow> int number \<Rightarrow>
       int number ChunkCoord2D list \<Rightarrow> int number ChunkCoord2D list option" where
  "innerLoop centerCx centerCz radius dz dx coords =
     (if number_le dx radius
      then innerLoop centerCx centerCz radius dz (number_add dx (Finite 1))
             (coords @ [\<lparr>cx = number_add (Finite centerCx) dx,
                          cz = number_add (Finite centerCz) dz\<rparr>])
      else Some coords)"

partial_function (option) outerLoop ::
    "int \<Rightarrow> int \<Rightarrow> int number \<Rightarrow> int number \<Rightarrow>
       int number ChunkCoord2D list \<Rightarrow> int number ChunkCoord2D list option" where
  "outerLoop centerCx centerCz radius dz coords =
     (if number_le dz radius
      then Option.bind (innerLoop centerCx centerCz radius dz (number_neg radius) coords)
             (\<lambda>coords'. outerLoop centerCx centerCz radius (number_add dz (Finite 1)) coords')
      else Some coords)"

definition chebyshevDistance_number ::
    "int number \<Rightarrow> int number \<Rightarrow> int number \<Rightarrow> int number \<Rightarrow> int number" where
  "chebyshevDistance_number x z centerCx centerCz =
     Math_max (Math_abs (number_sub x centerCx)) (Math_abs (number_sub z centerCz))"

text \<open>The comparator handed to \<open>coords.sort\<close>.\<close>

definition compareByDistance ::
    "int \<Rightarrow> int \<Rightarrow> int number ChunkCoord2D \<Rightarrow> int number ChunkCoord2D \<Rightarrow> int number" where
  "compareByDistance centerCx centerCz a b =
     (let aDistance = chebyshevDistance_number (cx a) (cz a) (Finite centerCx) (Finite centerCz);
          bDistance = chebyshevDistance_number (cx b) (cz b) (Finite centerCx) (Finite centerCz)
      in if number_differs aDistance bDistance then number_sub aDistance bDistance
         else if number_differs (cz a) (cz b) then number_sub (cz a) (cz b)
         else number_sub (cx a) (cx b))"

text \<open>
  \<open>Array.prototype.sort\<close> with a comparator is a stable sort: an element ends behind
  another one that it preceded only where the comparator is positive (a \<open>NaN\<close> counts as
  0). It is the insertion sort with that property here; for a comparator that is a total
  preorder, as the one above is on integer coordinates, every stable sort gives the same
  array.
\<close>

fun Array_sort_insert :: "('a \<Rightarrow> 'a \<Rightarrow> int number) \<Rightarrow> 'a \<Rightarrow> 'a list \<Rightarrow> 'a list" where
  "Array_sort_insert cmp a [] = [a]"
| "Array_sort_insert cmp a (b # bs) =
     (if number_less (Finite 0) (cmp a b) then b # Array_sort_insert cmp a bs
      else a # b # bs)"

definition Array_sort :: "('a \<Rightarrow> 'a \<Rightarrow> int number) \<Rightarrow> 'a list \<Rightarrow> 'a list" where
  "Array_sort cmp as = foldr (Array_sort_insert cmp) as []"

text \<open>\<open>chunkKey\<close> on the coordinates of this array.\<close>

definition chunkKey_number :: "int number \<Rightarrow> int number \<Rightarrow> string" where
  "chunkKey_number x z = Number_toString_number x @ '','' @ Number_toString_number z"

definition computeNeededChunkKeys :: "int \<Rightarrow> int \<Rightarrow> real number \<Rightarrow> string list option" where
  "computeNeededChunkKeys centerCx centerCz activeRadius =
     (let radius = Math_max (Finite 0) (Math_floor activeRadius)
      in case outerLoop centerCx centerCz radius (number_neg radius) [] of
           None \<Rightarrow> None
         | Some coords \<Rightarrow>
             Some (map (\<lambda>a. chunkKey_number (cx a) (cz a))
                     (Array_sort (compareByDistance centerCx centerCz) coords)))"

text \<open>
  \<open>computeNeededChunkKeys\<close> at an integer radius, which is how a \<open>ChunkManager\<close> calls it.
  The counters are integers and the loops end; the comparator orders by distance, then
  \<open>cz\<close>, then \<open>cx\<close>: a total order, so the sorted array is the one sorted by that triple.
  That this is \<open>computeNeededChunkKeys\<close> at that radius is
  \<open>computeNeededChunkKeys_at_int\<close> below.
\<close>

definition distanceKey :: "int \<Rightarrow> int \<Rightarrow> int ChunkCoord2D \<Rightarrow> int \<times> int \<times> int" where
  "distanceKey centerCx centerCz a = (chebyshevDistance (cx a) (cz a) centerCx centerCz, cz a, cx a)"

definition computeNeededChunkKeys_int :: "int \<Rightarrow> int \<Rightarrow> int \<Rightarrow> string list" where
  "computeNeededChunkKeys_int centerCx centerCz activeRadius =
     (let radius = max 0 activeRadius;
          coords = concat (map (\<lambda>dz. map (\<lambda>dx. \<lparr>cx = centerCx + dx, cz = centerCz + dz\<rparr>)
                                           [- radius..radius])
                               [- radius..radius]);
          sorted = sort_key (distanceKey centerCx centerCz) coords
      in map (\<lambda>a. chunkKey (cx a) (cz a)) sorted)"

text \<open>An integer coordinate pair as the loops of \<open>computeNeededChunkKeys\<close> hold it.\<close>

definition finiteCoord :: "int ChunkCoord2D \<Rightarrow> int number ChunkCoord2D" where
  "finiteCoord a = \<lparr>cx = Finite (cx a), cz = Finite (cz a)\<rparr>"

subsection \<open>The manager\<close>

record ChunkManager =
  activeRadius :: int
  removeRadius :: int
  loaded :: "(string, MeshWorkerResponse) jsmap"
  inflight :: "(string, MeshWorkerRequest) jsmap"
  queued :: "(string, MeshWorkerRequest) jsmap"
  readyToApply :: "(string, MeshWorkerResponse) jsmap"
  seedStr :: "string option"
  seedInt :: "32 word option"

text \<open>
  The options object as the callers build it. \<open>Game.tsx\<close> and \<open>chunkManager.test.ts\<close>
  pass a \<open>maxInflight\<close> property; the constructor reads \<open>activeRadius\<close> and
  \<open>removeRadius\<close> only.
\<close>

record ChunkManagerOptions =
  opt_activeRadius :: "real number option"
  opt_removeRadius :: "real number option"
  opt_maxInflight :: "real number option"

record ChunkManagerTickParams =
  playerX :: real
  playerZ :: real
  p_seedStr :: string
  workerResponses :: "MeshWorkerResponse list option"

text \<open>The field \<open>apply\<close> of the result is \<open>tick_apply\<close> here.\<close>

record ChunkManagerTickResult =
  request :: "MeshWorkerRequest option"
  tick_apply :: "MeshWorkerResponse option"
  unloadKeys :: "string list"

record ChunkManagerStats =
  stat_loaded :: nat
  stat_queued :: nat
  stat_inflight :: nat
  stat_ready :: nat

text \<open>
  The object the constructor returns. Each of its radii is
  \<open>Math.max(0, Math.floor(r))\<close>: a non-negative integer where \<open>r\<close> is finite or
  \<open>-Infinity\<close>, and \<open>NaN\<close> or \<open>Infinity\<close> where \<open>r\<close> is. The record \<open>ChunkManager\<close> is a
  manager with integer radii, and the methods are modelled on it; an object with a \<open>NaN\<close>
  or infinite radius is \<open>NonFiniteRadii activeRadius removeRadius\<close>, the two fields as
  they are stored (its maps are empty and its seed is \<open>null\<close>, as in every new manager).
\<close>

datatype ChunkManagerObject =
    Manager ChunkManager
  | NonFiniteRadii "int number" "int number"

definition new_ChunkManager :: "ChunkManagerOptions option \<Rightarrow> error + ChunkManagerObject" where
  "new_ChunkManager options =
     (let ar = Math_max (Finite 0)
                 (Math_floor (case Option.bind options opt_activeRadius of
                                None \<Rightarrow> Finite DEFAULT_ACTIVE_RADIUS | Some r \<Rightarrow> r));
          rr = Math_max (Finite 0)
                 (Math_floor (case Option.bind options opt_removeRadius of
                                None \<Rightarrow> Finite DEFAULT_REMOVE_RADIUS | Some r \<Rightarrow> r))
      in if number_less rr ar then Inl (Error ''removeRadius must be >= activeRadius'')
         else Inr (case (ar, rr) of
                     (Finite a, Finite r) \<Rightarrow>
                       Manager \<lparr>activeRadius = a, removeRadius = r, loaded = [], inflight = [],
                                queued = [], readyToApply = [], seedStr = None, seedInt = None\<rparr>
                   | _ \<Rightarrow> NonFiniteRadii ar rr))"

definition handleWorkerResponse :: "ChunkManager \<Rightarrow> MeshWorkerResponse \<Rightarrow> ChunkManager" where
  "handleWorkerResponse m response =
     (let k = chunkKey (res_cx response) (res_cz response)
      in if \<not> map_has (inflight m) k then m
         else m\<lparr>inflight := map_delete (inflight m) k,
                 readyToApply := map_set (readyToApply m) k response\<rparr>)"

definition getStats :: "ChunkManager \<Rightarrow> ChunkManagerStats" where
  "getStats m =
     \<lparr>stat_loaded = length (loaded m), stat_queued = length (queued m),
      stat_inflight = length (inflight m), stat_ready = length (readyToApply m)\<rparr>"

definition resetForSeedIfNeeded ::
    "ChunkManager \<Rightarrow> string \<Rightarrow> string list \<Rightarrow> ChunkManager \<times> string list" where
  "resetForSeedIfNeeded m s unload =
     (if seedStr m = Some s then (m, unload)
      else (m\<lparr>loaded := [], inflight := [], queued := [], readyToApply := [],
               seedStr := Some s, seedInt := Some (seedToInt s)\<rparr>,
            fold (\<lambda>k acc. acc @ [k]) (map_keys (loaded m)) unload))"

definition refreshQueue :: "ChunkManager \<Rightarrow> int \<Rightarrow> int \<Rightarrow> ChunkManager" where
  "refreshQueue m centerCx centerCz =
     (case (seedStr m, seedInt m) of
        (Some s, Some i) \<Rightarrow>
          (let needed = Set_new (computeNeededChunkKeys_int centerCx centerCz
                                   (activeRadius m));
               q1 = fold (\<lambda>k q. if k \<notin> set needed then map_delete q k else q)
                      (map_keys (queued m)) (queued m);
               q2 = fold (\<lambda>k q.
                            if map_has (loaded m) k \<or> map_has (inflight m) k \<or>
                               map_has q k \<or> map_has (readyToApply m) k
                            then q
                            else (let coord = parseChunkKey k
                                  in map_set q k
                                       \<lparr>req_seedStr = s, req_seedInt = i,
                                        req_cx = pcx coord, req_cz = pcz coord\<rparr>))
                      needed q1
           in m\<lparr>queued := q2\<rparr>)
      | _ \<Rightarrow> m)"

definition dequeueRequest :: "ChunkManager \<Rightarrow> ChunkManager \<times> MeshWorkerRequest option" where
  "dequeueRequest m =
     (case queued m of
        [] \<Rightarrow> (m, None)
      | (k, req) # _ \<Rightarrow>
          (m\<lparr>queued := map_delete (queued m) k, inflight := map_set (inflight m) k req\<rparr>,
           Some req))"

text \<open>
  The locals of the scan in \<open>dequeueApply\<close>; \<open>bestDistance = None\<close> is
  \<open>Number.POSITIVE_INFINITY\<close>.
\<close>

record ApplyScan =
  scan_ready :: "(string, MeshWorkerResponse) jsmap"
  bestKey :: "string option"
  bestResponse :: "MeshWorkerResponse option"
  bestDistance :: "int option"
  bestCx :: int
  bestCz :: int

definition dequeueApply_step ::
    "int \<Rightarrow> int \<Rightarrow> int \<Rightarrow> string \<times> MeshWorkerResponse \<Rightarrow> ApplyScan \<Rightarrow> ApplyScan" where
  "dequeueApply_step centerCx centerCz radius entry st =
     (let k = fst entry; response = snd entry; coord = parseChunkKey k
      in case (pcx coord, pcz coord) of
           (Some x, Some z) \<Rightarrow>
             (if \<not> isInRadius x z centerCx centerCz radius
              then st\<lparr>scan_ready := map_delete (scan_ready st) k\<rparr>
              else (let distance = chebyshevDistance x z centerCx centerCz
                    in if (case bestDistance st of None \<Rightarrow> True | Some b \<Rightarrow> distance < b) \<or>
                          (bestDistance st = Some distance \<and>
                             (z < bestCz st \<or> (z = bestCz st \<and> x < bestCx st)))
                       then st\<lparr>bestKey := Some k, bestResponse := Some response,
                                bestDistance := Some distance, bestCx := x, bestCz := z\<rparr>
                       else st))
         | _ \<Rightarrow> st\<lparr>scan_ready := map_delete (scan_ready st) k\<rparr>)"

definition dequeueApply ::
    "ChunkManager \<Rightarrow> int \<Rightarrow> int \<Rightarrow> ChunkManager \<times> MeshWorkerResponse option" where
  "dequeueApply m centerCx centerCz =
     (let st = fold (dequeueApply_step centerCx centerCz (removeRadius m)) (readyToApply m)
                 \<lparr>scan_ready = readyToApply m, bestKey = None, bestResponse = None,
                  bestDistance = None, bestCx = 0, bestCz = 0\<rparr>
      in case (bestKey st, bestResponse st) of
           (Some k, Some response) \<Rightarrow>
             (if k = [] then (m\<lparr>readyToApply := scan_ready st\<rparr>, None)
              else (m\<lparr>readyToApply := map_delete (scan_ready st) k,
                       loaded := map_set (loaded m) k response\<rparr>,
                    Some response))
         | _ \<Rightarrow> (m\<lparr>readyToApply := scan_ready st\<rparr>, None))"

definition unloadOutsideRemoveRadius ::
    "ChunkManager \<Rightarrow> int \<Rightarrow> int \<Rightarrow> string list \<Rightarrow> ChunkManager \<times> string list" where
  "unloadOutsideRemoveRadius m centerCx centerCz unload =
     fold (\<lambda>k (m', acc).
             if keyInRadius k centerCx centerCz (removeRadius m) then (m', acc)
             else (m'\<lparr>loaded := map_delete (loaded m') k\<rparr>, acc @ [k]))
       (map_keys (loaded m)) (m, unload)"

definition pruneOutsideRemoveRadius ::
    "ChunkManager \<Rightarrow> (string, 'v) jsmap \<Rightarrow> int \<Rightarrow> int \<Rightarrow> (string, 'v) jsmap" where
  "pruneOutsideRemoveRadius m mp centerCx centerCz =
     fold (\<lambda>k mp'. if keyInRadius k centerCx centerCz (removeRadius m) then mp'
                    else map_delete mp' k)
       (map_keys mp) mp"

text \<open>
  \<open>tick\<close>. An exception of \<open>worldToChunk\<close> would leave \<open>tick\<close> after the seed reset and
  the responses; with the constant chunk size it is never raised.
\<close>

definition tick ::
    "ChunkManager \<Rightarrow> ChunkManagerTickParams \<Rightarrow>
       error + (ChunkManager \<times> ChunkManagerTickResult)" where
  "tick m params =
     (let (m1, unload1) = resetForSeedIfNeeded m (p_seedStr params) [];
          m2 = fold (\<lambda>response m'. handleWorkerResponse m' response)
                 (case workerResponses params of None \<Rightarrow> [] | Some rs \<Rightarrow> rs) m1
      in case worldToChunk (playerX params) (of_int CHUNK_SIZE) of
           Inl e \<Rightarrow> Inl e
         | Inr coordX \<Rightarrow>
        (case worldToChunk (playerZ params) (of_int CHUNK_SIZE) of
           Inl e \<Rightarrow> Inl e
         | Inr coordZ \<Rightarrow>
            (let centerCx = chunk coordX;
                 centerCz = chunk coordZ;
                 m3 = m2\<lparr>queued := pruneOutsideRemoveRadius m2 (queued m2) centerCx centerCz\<rparr>;
                 m4 = m3\<lparr>inflight := pruneOutsideRemoveRadius m3 (inflight m3) centerCx centerCz\<rparr>;
                 m5 = m4\<lparr>readyToApply :=
                           pruneOutsideRemoveRadius m4 (readyToApply m4) centerCx centerCz\<rparr>;
                 (m6, unload2) = unloadOutsideRemoveRadius m5 centerCx centerCz unload1;
                 m7 = refreshQueue m6 centerCx centerCz;
                 (m8, req) = dequeueRequest m7;
                 (m9, app) = dequeueApply m8 centerCx centerCz
             in Inr (m9, \<lparr>request = req, tick_apply = app, unloadKeys = unload2\<rparr>))))"

text \<open>A run of the manager: one \<open>tick\<close> after the other, with the result of each.\<close>

fun ticks ::
    "ChunkManager \<Rightarrow> ChunkManagerTickParams list \<Rightarrow>
       error + (ChunkManager \<times> ChunkManagerTickResult list)" where
  "ticks m [] = Inr (m, [])"
| "ticks m (p # ps) =
     (case tick m p of
        Inl e \<Rightarrow> Inl e
      | Inr (m', r) \<Rightarrow>
          (case ticks m' ps of
             Inl e \<Rightarrow> Inl e
           | Inr (m'', rs) \<Rightarrow> Inr (m'', r # rs)))"

text \<open>
  The chunk of key \<open>k\<close> is within \<open>removeRadius\<close> (Chebyshev distance) of the center
  chunk that \<open>tick\<close> computes from the player position.
\<close>

definition withinRemoveRadius :: "ChunkManager \<Rightarrow> ChunkManagerTickParams \<Rightarrow> string \<Rightarrow> bool" where
  "withinRemoveRadius m p k =
     (case (worldToChunk (playerX p) (of_int CHUNK_SIZE),
           worldToChunk (playerZ p) (of_int CHUNK_SIZE)) of
        (Inr a, Inr b) \<Rightarrow> keyInRadius k (chunk a) (chunk b) (removeRadius m)
      | _ \<Rightarrow> False)"

text \<open>Example data: an empty mesh, a response and a tick.\<close>

definition emptyMesh :: GreedyMeshPayload where
  "emptyMesh = \<lparr>positions = [], normals = [], colors = [], indices = [],
                 quadCount = 0, indexCount = 0\<rparr>"

definition makeResponse :: "int \<Rightarrow> int \<Rightarrow> MeshWorkerResponse" where
  "makeResponse x z =
     \<lparr>key = chunkKey x z, res_cx = x, res_cz = z, mesh = emptyMesh, forceApply = None\<rparr>"

definition tickAt ::
    "real \<Rightarrow> real \<Rightarrow> string \<Rightarrow> MeshWorkerResponse list option \<Rightarrow> ChunkManagerTickParams" where
  "tickAt x z s rs = \<lparr>playerX = x, playerZ = z, p_seedStr = s, workerResponses = rs\<rparr>"

text \<open>
  The manager of the test ``unloads chunks once they leave removeRadius'' after its two
  first ticks: chunk \<open>(0,0)\<close> has been requested and applied under the seed \<open>demo\<close>.
\<close>

definition managerWithOrigin :: ChunkManager where
  "managerWithOrigin =
     \<lparr>activeRadius = 0, removeRadius = 1, loaded = [(''0,0'', makeResponse 0 0)],
      inflight = [], queued = [], readyToApply = [], seedStr = Some ''demo'',
      seedInt = Some (seedToInt ''demo'')\<rparr>"

section \<open>world/getVoxel.ts\<close>

text \<open>A voxel id is a small number, stored in the bytes of a \<open>Uint8Array\<close>.\<close>

type_synonym VoxelId = "8 word"

definition VOXEL_AIR :: VoxelId where
  "VOXEL_AIR = 0"

definition VOXEL_GRASS :: VoxelId where
  "VOXEL_GRASS = 1"

definition VOXEL_DIRT :: VoxelId where
  "VOXEL_DIRT = 2"

definition VOXEL_STONE :: VoxelId where
  "VOXEL_STONE = 3"

definition TERRAIN_BASE_HEIGHT :: real where
  "TERRAIN_BASE_HEIGHT = 20"

definition TERRAIN_NOISE_SCALE :: real where
  "TERRAIN_NOISE_SCALE = 0.018"

definition TERRAIN_DETAIL_SCALE :: real where
  "TERRAIN_DETAIL_SCALE = 0.05"

definition TERRAIN_BIOME_SCALE :: real where
  "TERRAIN_BIOME_SCALE = 0.0026"

definition TERRAIN_CONTINENTAL_SCALE :: real where
  "TERRAIN_CONTINENTAL_SCALE = 0.006"

definition TERRAIN_PLAINS_AMPLITUDE :: real where
  "TERRAIN_PLAINS_AMPLITUDE = 4"

definition TERRAIN_HILLS_AMPLITUDE :: real where
  "TERRAIN_HILLS_AMPLITUDE = 10"

definition TERRAIN_MOUNTAIN_AMPLITUDE :: real where
  "TERRAIN_MOUNTAIN_AMPLITUDE = 16"

definition DIRT_LAYER_DEPTH :: int where
  "DIRT_LAYER_DEPTH = 3"

definition RIVER_NOISE_SCALE :: real where
  "RIVER_NOISE_SCALE = 0.005"

definition RIVER_WARP_SCALE :: real where
  "RIVER_WARP_SCALE = 0.012"

definition RIVER_WARP_STRENGTH :: real where
  "RIVER_WARP_STRENGTH = 7"

definition RIVER_THRESHOLD :: real where
  "RIVER_THRESHOLD = 0.15"

definition RIVER_MAX_DEPTH :: real where
  "RIVER_MAX_DEPTH = 6"

definition VILLAGE_CELL_SIZE :: int where
  "VILLAGE_CELL_SIZE = 72"

definition VILLAGE_RADIUS :: real where
  "VILLAGE_RADIUS = 18"

definition VILLAGE_FLATTEN_BAND :: real where
  "VILLAGE_FLATTEN_BAND = 10"

definition VILLAGE_ROAD_HALF_WIDTH :: int where
  "VILLAGE_ROAD_HALF_WIDTH = 2"

datatype Door = south | west

record HutTemplate =
  offsetX :: int
  offsetZ :: int
  sizeX :: int
  sizeZ :: int
  door :: Door

definition HUT_TEMPLATES :: "HutTemplate list" where
  "HUT_TEMPLATES =
     [\<lparr>offsetX = - 6, offsetZ = - 4, sizeX = 5, sizeZ = 5, door = south\<rparr>,
      \<lparr>offsetX = 6, offsetZ = 3, sizeX = 4, sizeZ = 6, door = west\<rparr>]"

text \<open>
  The noise functions of a seed. \<open>createNoise2D\<close> and \<open>alea\<close> are packages outside the
  repository, so the entry that \<open>getNoiseCache\<close> returns for a seed string is a parameter
  (\<open>noise\<close>) of everything below. The entry's surface cache is modelled apart, as
  \<open>SurfaceCache\<close>.
\<close>

record NoiseCacheEntry =
  terrainNoise2D :: "real \<Rightarrow> real \<Rightarrow> real"
  terrainDetailNoise2D :: "real \<Rightarrow> real \<Rightarrow> real"
  terrainBiomeNoise2D :: "real \<Rightarrow> real \<Rightarrow> real"
  terrainContinentalNoise2D :: "real \<Rightarrow> real \<Rightarrow> real"
  riverNoise2D :: "real \<Rightarrow> real \<Rightarrow> real"
  riverWarpNoise2D :: "real \<Rightarrow> real \<Rightarrow> real"
  villageJitterXNoise2D :: "real \<Rightarrow> real \<Rightarrow> real"
  villageJitterZNoise2D :: "real \<Rightarrow> real \<Rightarrow> real"
  villageHeightNoise2D :: "real \<Rightarrow> real \<Rightarrow> real"

record SurfaceProfile =
  surfaceHeight :: int
  baseHeight :: int
  isRiver :: bool
  isVillage :: bool
  isVillageRoad :: bool
  localX :: int
  localZ :: int
  villageCenterX :: int
  villageCenterZ :: int

record VillageShape =
  vs_isVillage :: bool
  vs_isVillageRoad :: bool
  vs_localX :: int
  vs_localZ :: int
  vs_villageCenterX :: int
  vs_villageCenterZ :: int
  villageBaseHeight :: int
  flattenBlend :: real

definition clamp :: "real \<Rightarrow> real \<Rightarrow> real \<Rightarrow> real" where
  "clamp v lo hi = max lo (min hi v)"

definition lerp :: "real \<Rightarrow> real \<Rightarrow> real \<Rightarrow> real" where
  "lerp a b t = a + (b - a) * t"

definition smoothstep :: "real \<Rightarrow> real \<Rightarrow> real \<Rightarrow> real" where
  "smoothstep edge0 edge1 x =
     (let t = clamp ((x - edge0) / (edge1 - edge0)) 0 1 in t * t * (3 - 2 * t))"

definition getBaseHeight :: "NoiseCacheEntry \<Rightarrow> int \<Rightarrow> int \<Rightarrow> int" where
  "getBaseHeight entry x z =
     (let biomeNoise = terrainBiomeNoise2D entry (of_int x * TERRAIN_BIOME_SCALE)
                         (of_int z * TERRAIN_BIOME_SCALE);
          biome = clamp ((biomeNoise + 1) * 0.5) 0 1;
          hillMask = smoothstep 0.56 0.8 biome;
          mountainMask = smoothstep 0.84 0.96 biome;
          amplitude0 = lerp TERRAIN_PLAINS_AMPLITUDE TERRAIN_HILLS_AMPLITUDE hillMask;
          amplitude = lerp amplitude0 TERRAIN_MOUNTAIN_AMPLITUDE mountainMask;
          primary = terrainNoise2D entry (of_int x * TERRAIN_NOISE_SCALE)
                      (of_int z * TERRAIN_NOISE_SCALE);
          detail = terrainDetailNoise2D entry (of_int x * TERRAIN_DETAIL_SCALE)
                     (of_int z * TERRAIN_DETAIL_SCALE);
          continental = terrainContinentalNoise2D entry (of_int x * TERRAIN_CONTINENTAL_SCALE)
                          (of_int z * TERRAIN_CONTINENTAL_SCALE);
          broadShape = continental * (amplitude * 0.65) + primary * amplitude;
          microShape = detail * (amplitude * 0.25);
          height0 = TERRAIN_BASE_HEIGHT + broadShape + microShape;
          ridgeStart = TERRAIN_BASE_HEIGHT + 6;
          height = (if height0 > ridgeStart then ridgeStart + (height0 - ridgeStart) * 0.45
                    else height0)
      in \<lfloor>height\<rfloor>)"

definition getRiverDepth :: "NoiseCacheEntry \<Rightarrow> int \<Rightarrow> int \<Rightarrow> int" where
  "getRiverDepth entry x z =
     (let warp = riverWarpNoise2D entry (of_int x * RIVER_WARP_SCALE)
                   (of_int z * RIVER_WARP_SCALE) * RIVER_WARP_STRENGTH;
          riverSignal = \<bar>riverNoise2D entry (of_int x * RIVER_NOISE_SCALE + warp)
                           (of_int z * RIVER_NOISE_SCALE - warp)\<bar>
      in if riverSignal \<ge> RIVER_THRESHOLD then 0
         else (let intensity = 1 - riverSignal / RIVER_THRESHOLD
               in max 1 \<lfloor>intensity * RIVER_MAX_DEPTH\<rfloor>))"

text \<open>\<open>Math.hypot(dx, dz)\<close> is the Euclidean norm.\<close>

definition getVillageShape :: "NoiseCacheEntry \<Rightarrow> int \<Rightarrow> int \<Rightarrow> VillageShape" where
  "getVillageShape entry x z =
     (let cellX = \<lfloor>real_of_int x / of_int VILLAGE_CELL_SIZE\<rfloor>;
          cellZ = \<lfloor>real_of_int z / of_int VILLAGE_CELL_SIZE\<rfloor>;
          cellOriginX = cellX * VILLAGE_CELL_SIZE;
          cellOriginZ = cellZ * VILLAGE_CELL_SIZE;
          lX = x - cellOriginX;
          lZ = z - cellOriginZ;
          centerX = \<lfloor>of_int VILLAGE_CELL_SIZE * 0.5 +
                      villageJitterXNoise2D entry (of_int cellX * 0.73) (of_int cellZ * 0.73) *
                        of_int VILLAGE_CELL_SIZE * 0.23\<rfloor>;
          centerZ = \<lfloor>of_int VILLAGE_CELL_SIZE * 0.5 +
                      villageJitterZNoise2D entry (of_int cellX * 0.67) (of_int cellZ * 0.67) *
                        of_int VILLAGE_CELL_SIZE * 0.23\<rfloor>;
          dx = lX - centerX;
          dz = lZ - centerZ;
          distance = sqrt ((of_int dx)\<^sup>2 + (of_int dz)\<^sup>2);
          inVillage = (distance \<le> VILLAGE_RADIUS);
          inVillageBand = (distance \<le> VILLAGE_RADIUS + VILLAGE_FLATTEN_BAND);
          blend = (if inVillageBand
                   then clamp ((VILLAGE_RADIUS + VILLAGE_FLATTEN_BAND - distance) /
                                 VILLAGE_FLATTEN_BAND) 0 1
                   else 0);
          vBase = \<lfloor>TERRAIN_BASE_HEIGHT +
                    villageHeightNoise2D entry (of_int cellX * 0.41) (of_int cellZ * 0.41) *
                      (TERRAIN_HILLS_AMPLITUDE * 0.55)\<rfloor>;
          road = (inVillage \<and>
                  (\<bar>dx\<bar> \<le> VILLAGE_ROAD_HALF_WIDTH \<or> \<bar>dz\<bar> \<le> VILLAGE_ROAD_HALF_WIDTH))
      in \<lparr>vs_isVillage = inVillage, vs_isVillageRoad = road, vs_localX = lX, vs_localZ = lZ,
          vs_villageCenterX = centerX, vs_villageCenterZ = centerZ,
          villageBaseHeight = vBase, flattenBlend = blend\<rparr>)"

text \<open>\<open>Math.round\<close> rounds to the nearest integer, a half upwards.\<close>

definition Math_round :: "real \<Rightarrow> int" where
  "Math_round v = \<lfloor>v + 1 / 2\<rfloor>"

text \<open>The profile of a column as \<open>getSurfaceProfile\<close> computes it on a cache miss.\<close>

definition computeSurfaceProfile :: "NoiseCacheEntry \<Rightarrow> int \<Rightarrow> int \<Rightarrow> SurfaceProfile" where
  "computeSurfaceProfile entry x z =
     (let base = getBaseHeight entry x z;
          riverDepth = getRiverDepth entry x z;
          village = getVillageShape entry x z;
          surface0 = base - riverDepth;
          river = (riverDepth > 0);
          allowVillage = (\<not> river \<and> of_int base \<le> TERRAIN_BASE_HEIGHT + 8);
          surface = (if allowVillage \<and> flattenBlend village > 0
                     then Math_round (lerp (of_int surface0) (of_int (villageBaseHeight village))
                                        (flattenBlend village))
                     else surface0)
      in \<lparr>surfaceHeight = surface, baseHeight = base, isRiver = river,
          isVillage = (allowVillage \<and> vs_isVillage village),
          isVillageRoad = (allowVillage \<and> vs_isVillageRoad village),
          localX = vs_localX village, localZ = vs_localZ village,
          villageCenterX = vs_villageCenterX village,
          villageCenterZ = vs_villageCenterZ village\<rparr>)"

text \<open>
  The surface cache of an entry, a \<open>Map\<close> of \<open>Map\<close>s with its entry count, and
  \<open>getSurfaceProfile\<close> with the cache as explicit state: a hit returns the cached profile;
  a miss computes the profile, drops the oldest cached profile when the cache is full, and
  stores the new one.
\<close>

definition SURFACE_CACHE_LIMIT :: nat where
  "SURFACE_CACHE_LIMIT = 60000"

record SurfaceCache =
  surfaceCache :: "(int, (int, SurfaceProfile) jsmap) jsmap"
  surfaceCacheSize :: nat

definition evictOldest :: "SurfaceCache \<Rightarrow> SurfaceCache" where
  "evictOldest c =
     (if surfaceCacheSize c \<ge> SURFACE_CACHE_LIMIT
      then (case surfaceCache c of
              [] \<Rightarrow> c
            | (firstX, zMap) # _ \<Rightarrow>
                (case zMap of
                   [] \<Rightarrow> c
                 | (firstZ, _) # _ \<Rightarrow>
                     (let zMap' = map_delete zMap firstZ
                      in \<lparr>surfaceCache =
                            (if length zMap' = 0 then map_delete (surfaceCache c) firstX
                             else map_set (surfaceCache c) firstX zMap'),
                          surfaceCacheSize = surfaceCacheSize c - 1\<rparr>)))
      else c)"

definition getSurfaceProfileCached ::
    "NoiseCacheEntry \<Rightarrow> SurfaceCache \<Rightarrow> int \<Rightarrow> int \<Rightarrow> SurfaceProfile \<times> SurfaceCache" where
  "getSurfaceProfileCached entry c x z =
     (case Option.bind (map_get (surfaceCache c) x) (\<lambda>row. map_get row z) of
        Some cached \<Rightarrow> (cached, c)
      | None \<Rightarrow>
          (let profile = computeSurfaceProfile entry x z;
               c1 = evictOldest c;
               targetRow = (case map_get (surfaceCache c1) x of None \<Rightarrow> [] | Some row \<Rightarrow> row);
               size' = (if \<not> map_has targetRow z then surfaceCacheSize c1 + 1
                        else surfaceCacheSize c1)
           in (profile,
               \<lparr>surfaceCache = map_set (surfaceCache c1) x (map_set targetRow z profile),
                surfaceCacheSize = size'\<rparr>)))"

text \<open>
  The cache only memoises: a cache whose profiles are the computed ones keeps returning
  the computed profile (\<open>getSurfaceProfileCached_transparent\<close> below). What
  \<open>getVoxel\<close> and the other readers see of \<open>getSurfaceProfile\<close> is therefore the
  computed profile of the seed's entry, which is how it is used from here on.
\<close>

definition surfaceCacheSound :: "NoiseCacheEntry \<Rightarrow> SurfaceCache \<Rightarrow> bool" where
  "surfaceCacheSound entry c =
     list_all (\<lambda>(x, row). list_all (\<lambda>(z, p). p = computeSurfaceProfile entry x z) row)
       (surfaceCache c)"

definition getSurfaceProfile ::
    "(string \<Rightarrow> NoiseCacheEntry) \<Rightarrow> string \<Rightarrow> int \<Rightarrow> int \<Rightarrow> SurfaceProfile" where
  "getSurfaceProfile noise seed x z = computeSurfaceProfile (noise seed) x z"

text \<open>
  The loop over the hut templates: \<open>continue\<close> goes on with the next template, \<open>return\<close>
  ends the search. \<open>Math.floor(n / 2)\<close> of an integer is \<open>n div 2\<close>.
\<close>

fun hutVoxel :: "SurfaceProfile \<Rightarrow> int \<Rightarrow> HutTemplate list \<Rightarrow> VoxelId option" where
  "hutVoxel profile y [] = None"
| "hutVoxel profile y (hut # huts) =
     (let wallBottom = surfaceHeight profile + 1;
          wallTop = surfaceHeight profile + 3;
          roofY = surfaceHeight profile + 4;
          centerX = villageCenterX profile + offsetX hut;
          centerZ = villageCenterZ profile + offsetZ hut;
          minX = centerX - sizeX hut div 2;
          maxX = minX + sizeX hut - 1;
          minZ = centerZ - sizeZ hut div 2;
          maxZ = minZ + sizeZ hut - 1;
          inside = (localX profile \<ge> minX \<and> localX profile \<le> maxX \<and>
                    localZ profile \<ge> minZ \<and> localZ profile \<le> maxZ)
      in if \<not> inside then hutVoxel profile y huts
         else if y = surfaceHeight profile then Some VOXEL_STONE
         else if y > roofY then Some VOXEL_AIR
         else if y = roofY then Some VOXEL_DIRT
         else if y < wallBottom \<or> y > wallTop then hutVoxel profile y huts
         else (let onBoundary = (localX profile = minX \<or> localX profile = maxX \<or>
                                 localZ profile = minZ \<or> localZ profile = maxZ)
               in if \<not> onBoundary then Some VOXEL_AIR
                  else (let doorX = (minX + maxX) div 2;
                            doorZ = (minZ + maxZ) div 2;
                            isDoor = ((door hut = south \<and> localZ profile = maxZ \<and>
                                         localX profile = doorX) \<or>
                                      (door hut = west \<and> localX profile = minX \<and>
                                         localZ profile = doorZ))
                        in if isDoor \<and> y \<le> wallBottom + 1 then Some VOXEL_AIR
                           else Some VOXEL_STONE)))"

definition getVillageStructureVoxel :: "SurfaceProfile \<Rightarrow> int \<Rightarrow> VoxelId option" where
  "getVillageStructureVoxel profile y =
     (if \<not> isVillage profile then None else hutVoxel profile y HUT_TEMPLATES)"

definition getVoxel ::
    "(string \<Rightarrow> NoiseCacheEntry) \<Rightarrow> string \<Rightarrow> int \<Rightarrow> int \<Rightarrow> int \<Rightarrow> VoxelId" where
  "getVoxel noise seed x y z =
     (let profile = getSurfaceProfile noise seed x z;
          h = surfaceHeight profile
      in if y < h
         then (if y \<ge> h - DIRT_LAYER_DEPTH then VOXEL_DIRT else VOXEL_STONE)
         else (case getVillageStructureVoxel profile y of
                 Some structureVoxel \<Rightarrow> structureVoxel
               | None \<Rightarrow>
                   if y > h then VOXEL_AIR
                   else if y = h
                   then (if isRiver profile then VOXEL_DIRT
                         else if isVillageRoad profile then VOXEL_STONE
                         else if isVillage profile then VOXEL_DIRT
                         else VOXEL_GRASS)
                   else VOXEL_DIRT))"

definition getSurfaceHeight :: "(string \<Rightarrow> NoiseCacheEntry) \<Rightarrow> string \<Rightarrow> int \<Rightarrow> int \<Rightarrow> int" where
  "getSurfaceHeight noise seed x z = surfaceHeight (getSurfaceProfile noise seed x z)"

definition isSolidTerrainVoxel ::
    "(string \<Rightarrow> NoiseCacheEntry) \<Rightarrow> string \<Rightarrow> int \<Rightarrow> int \<Rightarrow> int \<Rightarrow> bool" where
  "isSolidTerrainVoxel noise seed x y z = (y \<le> getSurfaceHeight noise seed x z)"

text \<open>
  Example noise: the river noise is 1 everywhere (no river), every other noise is 0, so
  the ground is flat at height 20 and each village cell has its village at its middle.
\<close>

definition flatNoise :: "string \<Rightarrow> NoiseCacheEntry" where
  "flatNoise seed =
     \<lparr>terrainNoise2D = (\<lambda>x z. 0), terrainDetailNoise2D = (\<lambda>x z. 0),
      terrainBiomeNoise2D = (\<lambda>x z. 0), terrainContinentalNoise2D = (\<lambda>x z. 0),
      riverNoise2D = (\<lambda>x z. 1), riverWarpNoise2D = (\<lambda>x z. 0),
      villageJitterXNoise2D = (\<lambda>x z. 0), villageJitterZNoise2D = (\<lambda>x z. 0),
      villageHeightNoise2D = (\<lambda>x z. 0)\<rparr>"

section \<open>world/buildChunkVoxels.ts\<close>

text \<open>
  Modelled from the spec: \<open>world/chunkConstants\<close> is not among the sources. The padded
  buffer has ``dimensions (chunkSize+2) \<times> (chunkHeight+2) \<times> (chunkSize+2)''; the chunk height
  is given nowhere and is a parameter (\<open>chunkHeight\<close>) of the builder.
\<close>

definition CHUNK_SIZE_PADDED :: nat where
  "CHUNK_SIZE_PADDED = nat CHUNK_SIZE + 2"

definition CHUNK_HEIGHT_PADDED :: "nat \<Rightarrow> nat" where
  "CHUNK_HEIGHT_PADDED chunkHeight = chunkHeight + 2"

definition PADDED_SLICE_AREA :: nat where
  "PADDED_SLICE_AREA = CHUNK_SIZE_PADDED * CHUNK_SIZE_PADDED"

definition indexOf :: "nat \<Rightarrow> nat \<Rightarrow> nat \<Rightarrow> nat" where
  "indexOf px py pz = py * PADDED_SLICE_AREA + pz * CHUNK_SIZE_PADDED + px"

text \<open>
  The three nested loops, each a fold over its index range; \<open>isDestroyed\<close> is optional,
  and \<open>isDestroyed?.(...)\<close> with no predicate is \<open>undefined\<close>, which is falsy.
\<close>

definition buildChunkVoxelsWithOverrides ::
    "nat \<Rightarrow> (string \<Rightarrow> NoiseCacheEntry) \<Rightarrow> string \<Rightarrow> int \<Rightarrow> int \<Rightarrow>
       (int \<Rightarrow> int \<Rightarrow> int \<Rightarrow> bool) option \<Rightarrow> VoxelId list" where
  "buildChunkVoxelsWithOverrides chunkHeight noise seed chunkX chunkZ isDestroyed =
     (let voxels0 = replicate
                      (CHUNK_SIZE_PADDED * CHUNK_HEIGHT_PADDED chunkHeight * CHUNK_SIZE_PADDED) 0;
          worldX0 = chunkX * CHUNK_SIZE;
          worldZ0 = chunkZ * CHUNK_SIZE
      in fold (\<lambda>py voxels.
                 let worldY = int py - 1
                 in fold (\<lambda>pz voxels.
                            let worldZ = worldZ0 + (int pz - 1)
                            in fold (\<lambda>px voxels.
                                       let worldX = worldX0 + (int px - 1)
                                       in voxels[indexOf px py pz :=
                                            (if (case isDestroyed of
                                                   None \<Rightarrow> False
                                                 | Some f \<Rightarrow> f worldX worldY worldZ)
                                             then 0
                                             else getVoxel noise seed worldX worldY worldZ)])
                                 [0..<CHUNK_SIZE_PADDED] voxels)
                         [0..<CHUNK_SIZE_PADDED] voxels)
           [0..<CHUNK_HEIGHT_PADDED chunkHeight] voxels0)"

definition buildChunkVoxels ::
    "nat \<Rightarrow> (string \<Rightarrow> NoiseCacheEntry) \<Rightarrow> string \<Rightarrow> int \<Rightarrow> int \<Rightarrow> VoxelId list" where
  "buildChunkVoxels chunkHeight noise seed chunkX chunkZ =
     buildChunkVoxelsWithOverrides chunkHeight noise seed chunkX chunkZ None"


text \<open>
  The cells of the padded buffer in the order the loops visit them, and the value the
  loop body writes into a cell.
\<close>

definition paddedCells :: "nat \<Rightarrow> (nat \<times> nat \<times> nat) list" where
  "paddedCells chunkHeight =
     concat (map (\<lambda>py. concat (map (\<lambda>pz. map (\<lambda>px. (py, pz, px)) [0..<CHUNK_SIZE_PADDED])
                                   [0..<CHUNK_SIZE_PADDED]))
               [0..<CHUNK_HEIGHT_PADDED chunkHeight])"

definition cellVoxel ::
    "(string \<Rightarrow> NoiseCacheEntry) \<Rightarrow> string \<Rightarrow> int \<Rightarrow> int \<Rightarrow>
       (int \<Rightarrow> int \<Rightarrow> int \<Rightarrow> bool) option \<Rightarrow> nat \<times> nat \<times> nat \<Rightarrow> VoxelId" where
  "cellVoxel noise seed chunkX chunkZ isDestroyed t =
     (case t of (py, pz, px) \<Rightarrow>
        (if (case isDestroyed of
               None \<Rightarrow> False
             | Some f \<Rightarrow> f (chunkX * CHUNK_SIZE + (int px - 1)) (int py - 1)
                          (chunkZ * CHUNK_SIZE + (int pz - 1)))
         then 0
         else getVoxel noise seed (chunkX * CHUNK_SIZE + (int px - 1)) (int py - 1)
                (chunkZ * CHUNK_SIZE + (int pz - 1))))"

section \<open>mesh/greedyMesh.ts\<close>

record PaddedChunkDims =
  dims_x :: int
  dims_y :: int
  dims_z :: int

definition AXIS_U :: "nat list" where
  "AXIS_U = [1, 2, 0]"

definition AXIS_V :: "nat list" where
  "AXIS_V = [2, 0, 1]"

text \<open>
  The argument of \<open>colorForVoxel\<close> is \<open>Math.abs\<close> of a mask entry: an integer, or
  \<open>NaN\<close> (\<open>None\<close>) had the entry been \<open>undefined\<close>.
\<close>

definition colorForVoxel :: "int option \<Rightarrow> real \<times> real \<times> real" where
  "colorForVoxel voxelId =
     (if voxelId = Some (uint VOXEL_GRASS) then (0.36, 0.72, 0.31)
      else if voxelId = Some (uint VOXEL_DIRT) then (0.49, 0.35, 0.22)
      else if voxelId = Some (uint VOXEL_STONE) then (0.56, 0.56, 0.58)
      else (0, 0, 0))"

definition indexOfPadded :: "int \<Rightarrow> int \<Rightarrow> int \<Rightarrow> PaddedChunkDims \<Rightarrow> int" where
  "indexOfPadded px py pz dims = py * dims_x dims * dims_z dims + pz * dims_x dims + px"

text \<open>Reading a typed array: \<open>None\<close> is the \<open>undefined\<close> of an index out of range.\<close>

definition typedArray_at :: "'a list \<Rightarrow> int \<Rightarrow> 'a option" where
  "typedArray_at xs i = (if 0 \<le> i \<and> nat i < length xs then Some (xs ! nat i) else None)"

definition sample :: "VoxelId list \<Rightarrow> PaddedChunkDims \<Rightarrow> int \<Rightarrow> int \<Rightarrow> int \<Rightarrow> VoxelId option" where
  "sample voxels dims lx ly lz =
     (let px = lx + 1; py = ly + 1; pz = lz + 1
      in if px < 0 \<or> py < 0 \<or> pz < 0 \<or> px \<ge> dims_x dims \<or> py \<ge> dims_y dims \<or>
            pz \<ge> dims_z dims
         then Some VOXEL_AIR
         else typedArray_at voxels (indexOfPadded px py pz dims))"

text \<open>The arrays the mesher pushes to, and \<open>quadCount\<close>.\<close>

record MeshArrays =
  arr_positions :: "int list"
  arr_normals :: "int list"
  arr_colors :: "real list"
  arr_indices :: "nat list"
  arr_quadCount :: nat

definition pushVertex ::
    "MeshArrays \<Rightarrow> int \<Rightarrow> int \<Rightarrow> int \<Rightarrow> int \<Rightarrow> int \<Rightarrow> int \<Rightarrow> real \<Rightarrow> real \<Rightarrow> real \<Rightarrow> MeshArrays" where
  "pushVertex st x y z nx ny nz r g b =
     st\<lparr>arr_positions := arr_positions st @ [x, y, z],
        arr_normals := arr_normals st @ [nx, ny, nz],
        arr_colors := arr_colors st @ [r, g, b]\<rparr>"

text \<open>
  \<open>base\<close> is \<open>positions.length / 3\<close>; the length is a multiple of 3, since
  \<open>pushVertex\<close> alone extends \<open>positions\<close>, by three entries.
\<close>

definition emitQuad ::
    "MeshArrays \<Rightarrow> nat \<Rightarrow> int \<Rightarrow> int \<Rightarrow> int \<Rightarrow> int \<Rightarrow> int \<Rightarrow> int \<Rightarrow> int option \<Rightarrow> MeshArrays" where
  "emitQuad st d w u v width height normalSign voxelId =
     (let (x0, y0, z0, dux, duy, duz, dvx, dvy, dvz) =
            (if d = 0 then (w, u, v, 0, width, 0, 0, 0, height)
             else if d = 1 then (v, w, u, 0, 0, width, height, 0, 0)
             else (u, v, w, width, 0, 0, 0, height, 0));
          nx = (if d = 0 then normalSign else 0);
          ny = (if d = 1 then normalSign else 0);
          nz = (if d = 2 then normalSign else 0);
          (r, g, b) = colorForVoxel voxelId;
          base = length (arr_positions st) div 3;
          st1 = pushVertex st x0 y0 z0 nx ny nz r g b;
          st2 = pushVertex st1 (x0 + dux) (y0 + duy) (z0 + duz) nx ny nz r g b;
          st3 = pushVertex st2 (x0 + dux + dvx) (y0 + duy + dvy) (z0 + duz + dvz)
                  nx ny nz r g b;
          st4 = pushVertex st3 (x0 + dvx) (y0 + dvy) (z0 + dvz) nx ny nz r g b;
          st5 = st4\<lparr>arr_indices := arr_indices st4 @
                  (if normalSign > 0
                   then [base, base + 1, base + 2, base, base + 2, base + 3]
                   else [base, base + 2, base + 1, base, base + 3, base + 2])\<rparr>
      in st5\<lparr>arr_quadCount := arr_quadCount st5 + 1\<rparr>)"

text \<open>
  One entry of the mask, for the plane \<open>w\<close> of axis \<open>d\<close> at \<open>(u, v)\<close>. What is stored
  goes through the conversion of an \<open>Int32Array\<close>: a voxel id is kept, \<open>undefined\<close> and
  \<open>NaN\<close> become 0.
\<close>

definition maskCell :: "VoxelId list \<Rightarrow> PaddedChunkDims \<Rightarrow> nat \<Rightarrow> int \<Rightarrow> int \<Rightarrow> int \<Rightarrow> int" where
  "maskCell voxels dims d w u v =
     (let (a_x, a_y, a_z, b_x, b_y, b_z) =
            (if d = 0 then (w - 1, u, v, w, u, v)
             else if d = 1 then (v, w - 1, u, v, w, u)
             else (u, v, w - 1, u, v, w));
          a = sample voxels dims a_x a_y a_z;
          b = sample voxels dims b_x b_y b_z;
          aSolid = (a \<noteq> Some VOXEL_AIR);
          bSolid = (b \<noteq> Some VOXEL_AIR)
      in if aSolid = bSolid then 0
         else if aSolid then (case a of Some i \<Rightarrow> uint i | None \<Rightarrow> 0)
         else (case b of Some i \<Rightarrow> - uint i | None \<Rightarrow> 0))"

definition buildMask :: "VoxelId list \<Rightarrow> PaddedChunkDims \<Rightarrow> nat \<Rightarrow> nat \<Rightarrow> nat \<Rightarrow> nat \<Rightarrow> int list" where
  "buildMask voxels dims d w sizeU sizeV =
     concat (map (\<lambda>v. map (\<lambda>u. maskCell voxels dims d (int w) (int u) (int v)) [0..<sizeU])
               [0..<sizeV])"

text \<open>\<open>while (u + width < sizeU && mask[start + width] === signedVoxel) width += 1\<close>\<close>

function growWidth :: "int list \<Rightarrow> nat \<Rightarrow> nat \<Rightarrow> nat \<Rightarrow> int option \<Rightarrow> nat \<Rightarrow> nat" where
  "growWidth msk sizeU u start signedVoxel width =
     (if u + width < sizeU \<and> typedArray_at msk (int (start + width)) = signedVoxel
      then growWidth msk sizeU u start signedVoxel (width + 1)
      else width)"
  by pat_completeness auto
termination
  by (relation "measure (\<lambda>(msk, sizeU, u, start, signedVoxel, width). sizeU - (u + width))") auto

text \<open>The inner \<open>for\<close> loop of the height search: does the whole next row match?\<close>

definition rowMatches :: "int list \<Rightarrow> nat \<Rightarrow> nat \<Rightarrow> int option \<Rightarrow> bool" where
  "rowMatches msk rowStart width signedVoxel =
     list_all (\<lambda>k. typedArray_at msk (int (rowStart + k)) = signedVoxel) [0..<width]"

function growHeight ::
    "int list \<Rightarrow> nat \<Rightarrow> nat \<Rightarrow> nat \<Rightarrow> nat \<Rightarrow> nat \<Rightarrow> int option \<Rightarrow> nat \<Rightarrow> nat" where
  "growHeight msk sizeU sizeV u v width signedVoxel height =
     (if v + height < sizeV
      then (if rowMatches msk ((v + height) * sizeU + u) width signedVoxel
            then growHeight msk sizeU sizeV u v width signedVoxel (height + 1)
            else height)
      else height)"
  by pat_completeness auto
termination
  by (relation "measure (\<lambda>(msk, sizeU, sizeV, u, v, width, signedVoxel, height).
                           sizeV - (v + height))") auto

definition clearRect :: "int list \<Rightarrow> nat \<Rightarrow> nat \<Rightarrow> nat \<Rightarrow> nat \<Rightarrow> nat \<Rightarrow> int list" where
  "clearRect msk sizeU u v width height =
     fold (\<lambda>y msk'. fold (\<lambda>x msk''. msk''[(v + y) * sizeU + u + x := 0]) [0..<width] msk')
       [0..<height] msk"

text \<open>The \<open>while (u < sizeU)\<close> loop over one row \<open>v\<close> of the mask.\<close>

function scanRow ::
    "nat \<Rightarrow> nat \<Rightarrow> nat \<Rightarrow> nat \<Rightarrow> nat \<Rightarrow> nat \<Rightarrow> int list \<times> MeshArrays \<Rightarrow> int list \<times> MeshArrays" where
  "scanRow d w sizeU sizeV v u (msk, st) =
     (if u < sizeU
      then (let start = v * sizeU + u;
                signedVoxel = typedArray_at msk (int start)
            in if signedVoxel = Some 0
               then scanRow d w sizeU sizeV v (u + 1) (msk, st)
               else (let width = growWidth msk sizeU u start signedVoxel 1;
                         height = growHeight msk sizeU sizeV u v width signedVoxel 1;
                         normalSign = (case signedVoxel of
                                         Some n \<Rightarrow> if n > 0 then 1 else - 1
                                       | None \<Rightarrow> - 1);
                         voxelId = map_option abs signedVoxel;
                         st' = emitQuad st d (int w) (int u) (int v) (int width) (int height)
                                 normalSign voxelId;
                         msk' = clearRect msk sizeU u v width height
                     in scanRow d w sizeU sizeV v (u + width) (msk', st')))
      else (msk, st))"
  by pat_completeness auto
termination
proof (relation "measure (\<lambda>(d, w, sizeU, sizeV, v, u, ms). sizeU - u)")
  show "wf (measure (\<lambda>(d, w, sizeU, sizeV, v, u, ms). sizeU - u))" by simp
next
  fix d w sizeU sizeV v u :: nat and msk :: "int list" and st :: MeshArrays
    and start :: nat and signedVoxel :: "int option"
  assume "u < sizeU"
  then show "((d, w, sizeU, sizeV, v, u + 1, msk, st), d, w, sizeU, sizeV, v, u, msk, st)
      \<in> measure (\<lambda>(d, w, sizeU, sizeV, v, u, ms). sizeU - u)"
    by simp
next
  fix d w sizeU sizeV v u :: nat and msk msk' :: "int list" and st st' :: MeshArrays
    and start width height :: nat and signedVoxel voxelId :: "int option" and normalSign :: int
  assume u: "u < sizeU" and width: "width = growWidth msk sizeU u start signedVoxel 1"
  have "n \<le> growWidth m s a b c n" for m s a b c n
    by (induction m s a b c n rule: growWidth.induct)
      (metis Suc_eq_plus1 Suc_leD growWidth.simps order_refl)
  then have "1 \<le> width" unfolding width .
  with u show "((d, w, sizeU, sizeV, v, u + width, msk', st'), d, w, sizeU, sizeV, v, u, msk, st)
      \<in> measure (\<lambda>(d, w, sizeU, sizeV, v, u, ms). sizeU - u)"
    by simp
qed

declare growWidth.simps [simp del] growHeight.simps [simp del] scanRow.simps [simp del]

text \<open>
  The body of \<open>for (let w = 0; w <= sizeD; w += 1)\<close>: fill the mask (\<open>buildMask\<close>), then
  scan its rows (\<open>scanMask\<close>). The mask, \<open>msk\<close> here, is refilled entirely for every
  \<open>w\<close>.
\<close>

definition scanMask ::
    "nat \<Rightarrow> nat \<Rightarrow> nat \<Rightarrow> nat \<Rightarrow> int list \<times> MeshArrays \<Rightarrow> int list \<times> MeshArrays" where
  "scanMask d w sizeU sizeV ms = fold (\<lambda>v ms'. scanRow d w sizeU sizeV v 0 ms') [0..<sizeV] ms"

definition meshSlice ::
    "VoxelId list \<Rightarrow> PaddedChunkDims \<Rightarrow> nat \<Rightarrow> nat \<Rightarrow> nat \<Rightarrow> nat \<Rightarrow> MeshArrays \<Rightarrow> MeshArrays" where
  "meshSlice voxels dims d sizeU sizeV w st =
     snd (scanMask d w sizeU sizeV (buildMask voxels dims d w sizeU sizeV, st))"

definition meshAxis :: "VoxelId list \<Rightarrow> PaddedChunkDims \<Rightarrow> nat list \<Rightarrow> nat \<Rightarrow> MeshArrays \<Rightarrow> MeshArrays" where
  "meshAxis voxels dims inner d st =
     (let uAxis = AXIS_U ! d;
          vAxis = AXIS_V ! d;
          sizeD = inner ! d;
          sizeU = inner ! uAxis;
          sizeV = inner ! vAxis
      in fold (meshSlice voxels dims d sizeU sizeV) [0..<sizeD + 1] st)"

definition greedyMesh :: "VoxelId list \<Rightarrow> PaddedChunkDims \<Rightarrow> error + GreedyMeshPayload" where
  "greedyMesh voxels dims =
     (if dims_x dims < 3 \<or> dims_y dims < 3 \<or> dims_z dims < 3
      then Inl (Error ''greedyMesh requires padded dimensions >= 3 on all axes'')
      else (let inner = [nat (dims_x dims - 2), nat (dims_y dims - 2), nat (dims_z dims - 2)];
                st = fold (meshAxis voxels dims inner) [0, 1, 2]
                       \<lparr>arr_positions = [], arr_normals = [], arr_colors = [],
                        arr_indices = [], arr_quadCount = 0\<rparr>
            in Inr \<lparr>positions = arr_positions st, normals = arr_normals st,
                     colors = arr_colors st, indices = arr_indices st,
                     quadCount = arr_quadCount st, indexCount = length (arr_indices st)\<rparr>))"

text \<open>The helpers of the mesher's tests.\<close>

definition createVoxels :: "PaddedChunkDims \<Rightarrow> VoxelId list" where
  "createVoxels dims = replicate (nat (dims_x dims * dims_y dims * dims_z dims)) 0"

definition setInnerVoxel ::
    "VoxelId list \<Rightarrow> PaddedChunkDims \<Rightarrow> int \<Rightarrow> int \<Rightarrow> int \<Rightarrow> VoxelId \<Rightarrow> VoxelId list" where
  "setInnerVoxel voxels dims x y z v =
     (let i = indexOfPadded (x + 1) (y + 1) (z + 1) dims
      in if 0 \<le> i then voxels[nat i := v] else voxels)"


text \<open>
  What the arrays satisfy between two quads: twelve coordinates, normals and colours and
  six indices per quad, every index below the number of vertices.
\<close>

definition meshInv :: "MeshArrays \<Rightarrow> bool" where
  "meshInv st =
     (length (arr_positions st) = 12 * arr_quadCount st \<and>
      length (arr_normals st) = 12 * arr_quadCount st \<and>
      length (arr_colors st) = 12 * arr_quadCount st \<and>
      length (arr_indices st) = 6 * arr_quadCount st \<and>
      list_all (\<lambda>i. i < 4 * arr_quadCount st) (arr_indices st))"

section \<open>Properties of lib/chunkMath.ts\<close>

subsection \<open>Rounding to binary64\<close>

lemma bitLength_bounds: "0 < n \<Longrightarrow> 2 ^ (bitLength n - 1) \<le> n \<and> n < 2 ^ bitLength n"
proof (induction n rule: bitLength.induct)
  case (1 n)
  show ?case
  proof (cases "n div 2 \<le> 0")
    case True
    with 1(2) have "n = 1" by linarith
    then show ?thesis by (simp add: bitLength.simps)
  next
    case False
    with 1 have ih: "2 ^ (bitLength (n div 2) - 1) \<le> n div 2" "n div 2 < 2 ^ bitLength (n div 2)"
      by auto
    have pos: "0 < bitLength (n div 2)" using False by (subst bitLength.simps) simp
    have bl: "bitLength n = Suc (bitLength (n div 2))" using 1(2) by (subst bitLength.simps) simp
    have "(2::int) ^ bitLength (n div 2) = 2 * 2 ^ (bitLength (n div 2) - 1)"
      using pos by (cases "bitLength (n div 2)") simp_all
    with ih(1) have lo: "2 ^ bitLength (n div 2) \<le> n" by linarith
    from ih(2) have "n < 2 * 2 ^ bitLength (n div 2)" by linarith
    with lo bl show ?thesis by simp
  qed
qed

lemma binaryExponent_bounds:
  assumes "x \<noteq> 0"
  shows "2 powi binaryExponent x \<le> \<bar>x\<bar>" and "\<bar>x\<bar> < 2 powi (binaryExponent x + 1)"
proof -
  show "2 powi binaryExponent x \<le> \<bar>x\<bar>"
  proof (cases "1 \<le> \<bar>x\<bar>")
    case True
    define n where "n = \<lfloor>\<bar>x\<bar>\<rfloor>"
    have n: "0 < n" using True by (simp add: n_def)
    have e: "binaryExponent x = int (bitLength n - 1)"
      using True bitLength_bounds[OF n] n by (cases "bitLength n") (simp_all add: binaryExponent_def n_def)
    have "real_of_int (2 ^ (bitLength n - 1)) \<le> real_of_int n"
      using bitLength_bounds[OF n] by (simp only: of_int_le_iff)
    also have "real_of_int n \<le> \<bar>x\<bar>" by (simp add: n_def)
    finally show ?thesis by (simp add: e)
  next
    case False
    define c where "c = \<lceil>1 / \<bar>x\<bar>\<rceil>"
    define k where "k = bitLength (c - 1)"
    have y: "1 < 1 / \<bar>x\<bar>" using False assms by simp
    have c2: "2 \<le> c" using y unfolding c_def by linarith
    have b: "2 ^ (k - 1) \<le> c - 1" "c - 1 < 2 ^ k" using bitLength_bounds[of "c - 1"] c2 by (simp_all add: k_def)
    have e: "binaryExponent x = - int k" using False by (simp add: binaryExponent_def c_def k_def)
    have "1 / \<bar>x\<bar> \<le> real_of_int c" unfolding c_def by linarith
    also have "real_of_int c \<le> real_of_int (2 ^ k)" using b(2) by (simp only: of_int_le_iff)
    finally have "1 / \<bar>x\<bar> \<le> 2 ^ k" by simp
    then have "1 / 2 ^ k \<le> \<bar>x\<bar>" using assms by (simp add: field_simps)
    then show ?thesis by (simp add: e power_int_minus field_simps)
  qed
  show "\<bar>x\<bar> < 2 powi (binaryExponent x + 1)"
  proof (cases "1 \<le> \<bar>x\<bar>")
    case True
    define n where "n = \<lfloor>\<bar>x\<bar>\<rfloor>"
    have n: "0 < n" using True by (simp add: n_def)
    have e: "binaryExponent x + 1 = int (bitLength n)"
      using True by (simp add: binaryExponent_def n_def)
    have "\<bar>x\<bar> < real_of_int n + 1" unfolding n_def by linarith
    also have "real_of_int n + 1 \<le> real_of_int (2 ^ bitLength n)"
    proof -
      have "n + 1 \<le> 2 ^ bitLength n" using bitLength_bounds[OF n] by simp
      then have "real_of_int (n + 1) \<le> real_of_int (2 ^ bitLength n)" by (simp only: of_int_le_iff)
      then show ?thesis by simp
    qed
    finally show ?thesis unfolding e by simp
  next
    case False
    define c where "c = \<lceil>1 / \<bar>x\<bar>\<rceil>"
    define k where "k = bitLength (c - 1)"
    have y: "1 < 1 / \<bar>x\<bar>" using False assms by simp
    have c2: "2 \<le> c" using y unfolding c_def by linarith
    have b: "2 ^ (k - 1) \<le> c - 1" "c - 1 < 2 ^ k" using bitLength_bounds[of "c - 1"] c2 by (simp_all add: k_def)
    have kpos: "0 < k" using c2 unfolding k_def by (subst bitLength.simps) simp
    have e: "binaryExponent x + 1 = - int (k - 1)" using False kpos by (simp add: binaryExponent_def c_def k_def)
    have "real_of_int (2 ^ (k - 1)) \<le> real_of_int (c - 1)" using b(1) by (simp only: of_int_le_iff)
    also have "real_of_int (c - 1) < 1 / \<bar>x\<bar>" unfolding c_def by simp linarith
    finally have "2 ^ (k - 1) < 1 / \<bar>x\<bar>" by simp
    then have "\<bar>x\<bar> < 1 / 2 ^ (k - 1)" using assms by (simp add: field_simps)
    then show ?thesis unfolding e by (simp add: power_int_minus field_simps)
  qed
qed

lemma roundTiesToEven_error: "\<bar>of_int (roundTiesToEven y) - y\<bar> \<le> 1 / 2"
proof -
  have "of_int \<lfloor>y\<rfloor> \<le> y" "y < of_int \<lfloor>y\<rfloor> + 1" by linarith+
  then show ?thesis by (auto simp add: roundTiesToEven_def Let_def)
qed

lemma roundTiesToEven_of_int: "roundTiesToEven (of_int k) = k"
  by (simp add: roundTiesToEven_def)

lemma toBinary64_error:
  assumes "x \<noteq> 0" and "- 1022 \<le> binaryExponent x"
  shows "\<bar>toBinary64 x - x\<bar> \<le> \<bar>x\<bar> / 2 ^ 53"
proof -
  define e where "e = binaryExponent x"
  define u :: real where "u = 2 powi (e - 52)"
  have upos: "0 < u" by (simp add: u_def)
  have u2: "u = 2 powi e / 2 ^ 52"
    unfolding u_def by (subst power_int_diff) simp_all
  have t: "toBinary64 x = of_int (roundTiesToEven (x / u)) * u"
    using assms by (simp add: toBinary64_def e_def u_def Let_def max_def)
  have "toBinary64 x - x = u * (of_int (roundTiesToEven (x / u)) - x / u)"
    using upos by (simp add: t field_simps)
  then have "\<bar>toBinary64 x - x\<bar> = u * \<bar>of_int (roundTiesToEven (x / u)) - x / u\<bar>"
    using upos by (simp add: abs_mult)
  also have "\<dots> \<le> u * (1 / 2)"
    using roundTiesToEven_error[of "x / u"] upos by (intro mult_left_mono) simp_all
  also have "\<dots> = 2 powi e / 2 ^ 53" by (simp add: u2)
  also have "\<dots> \<le> \<bar>x\<bar> / 2 ^ 53"
    using binaryExponent_bounds(1)[OF assms(1)] by (simp add: e_def divide_right_mono)
  finally show ?thesis .
qed

lemma toBinary64_of_int:
  assumes "\<bar>n\<bar> \<le> 2 ^ 53"
  shows "toBinary64 (of_int n) = of_int n"
proof (cases "n = 0")
  case True
  then show ?thesis by (simp add: toBinary64_def)
next
  case False
  define x :: real where "x = of_int n"
  define e where "e = binaryExponent x"
  have x0: "x \<noteq> 0" using False by (simp add: x_def)
  have x1: "1 \<le> \<bar>x\<bar>"
  proof -
    have "1 \<le> \<bar>n\<bar>" using False by simp
    then have "real_of_int 1 \<le> real_of_int \<bar>n\<bar>" by (simp only: of_int_le_iff)
    then show ?thesis by (simp add: x_def)
  qed
  have e0: "0 \<le> e" using x1 by (simp add: e_def binaryExponent_def) (subst bitLength.simps, simp)
  define m where "m = nat e"
  have em: "e = int m" using e0 by (simp add: m_def)
  have lo: "2 ^ m \<le> \<bar>x\<bar>" using binaryExponent_bounds(1)[OF x0] by (simp add: e_def[symmetric] em)
  have xle: "\<bar>x\<bar> \<le> 2 ^ 53"
  proof -
    have "real_of_int \<bar>n\<bar> \<le> real_of_int (2 ^ 53)" using assms by (simp only: of_int_le_iff)
    then show ?thesis by (simp add: x_def)
  qed
  have m53: "m \<le> 53"
  proof (rule ccontr)
    assume "\<not> m \<le> 53"
    then have "(2::real) ^ 54 \<le> 2 ^ m" by (intro power_increasing) simp_all
    with lo xle show False by simp
  qed
  have t: "toBinary64 x = of_int (roundTiesToEven (x / 2 powi (e - 52))) * 2 powi (e - 52)"
    using x0 e0 by (simp add: toBinary64_def e_def Let_def max_def)
  show ?thesis
  proof (cases "m \<le> 52")
    case True
    have u: "(2::real) powi (e - 52) = 1 / 2 ^ (52 - m)"
    proof -
      have "e - 52 = - int (52 - m)" using True by (simp add: em)
      then show ?thesis by (simp only: power_int_minus power_int_of_nat) (simp add: field_simps)
    qed
    have "x / 2 powi (e - 52) = of_int (n * 2 ^ (52 - m))" by (simp add: u x_def)
    then have "roundTiesToEven (x / 2 powi (e - 52)) = n * 2 ^ (52 - m)"
      by (simp only: roundTiesToEven_of_int)
    then show ?thesis using t by (simp add: u x_def)
  next
    case False
    with m53 have m: "m = 53" by simp
    have "\<bar>x\<bar> = 2 ^ 53" using lo xle by (simp add: m)
    then have "\<bar>n\<bar> = 2 ^ 53" by (simp add: x_def)
    then have n: "n = 2 ^ 53 \<or> n = - (2 ^ 53)" by linarith
    have u: "(2::real) powi (e - 52) = 2" by (simp add: em m)
    from n have "x / 2 = of_int (n div 2)" by (auto simp add: x_def)
    then have "roundTiesToEven (x / 2 powi (e - 52)) = n div 2"
      by (simp only: u roundTiesToEven_of_int)
    then show ?thesis using t n by (auto simp add: u x_def)
  qed
qed

lemma floor_toBinary64_quotient:
  assumes b: "0 < b" "b \<le> 2 ^ 53" and a: "\<bar>a\<bar> < 2 ^ 53"
  shows "\<lfloor>toBinary64 (of_int a / of_int b)\<rfloor> = a div b"
proof (cases "b dvd a")
  case True
  then have "real_of_int a / real_of_int b = of_int (a div b)" using b by (simp add: real_of_int_div)
  moreover have "\<bar>a div b\<bar> \<le> 2 ^ 53"
  proof -
    from True obtain k where k: "a = b * k" by (auto simp add: dvd_def)
    have "\<bar>k\<bar> * 1 \<le> \<bar>k\<bar> * b" using b(1) by (intro mult_left_mono) simp_all
    then have "\<bar>a div b\<bar> \<le> \<bar>a\<bar>" using b(1) by (simp add: k abs_mult mult.commute)
    with a show ?thesis by simp
  qed
  ultimately show ?thesis by (simp add: toBinary64_of_int)
next
  case False
  define x :: real where "x = of_int a / of_int b"
  define q where "q = a div b"
  have a0: "a \<noteq> 0" using False by auto
  have x0: "x \<noteq> 0" using a0 b by (simp add: x_def)
  have rb: "0 < real_of_int b" using b by simp
  have m: "0 < a mod b" "a mod b < b"
  proof -
    have "0 \<le> a mod b" "a mod b \<noteq> 0" using False b(1) by (simp_all add: mod_eq_0_iff_dvd)
    then show "0 < a mod b" by simp
    show "a mod b < b" using b(1) by simp
  qed
  have xq: "x = of_int q + of_int (a mod b) / of_int b"
  proof -
    have "real_of_int a = of_int (q * b + a mod b)" by (simp add: q_def)
    then show ?thesis using rb by (simp add: x_def field_simps)
  qed
  have lo: "of_int q + 1 / of_int b \<le> x"
  proof -
    have "1 \<le> real_of_int (a mod b)" using m(1) by linarith
    then show ?thesis using rb by (simp add: xq divide_right_mono)
  qed
  have hi: "x + 1 / of_int b \<le> of_int q + 1"
  proof -
    have "real_of_int (a mod b) + 1 \<le> of_int b" using m(2) by linarith
    then have "(real_of_int (a mod b) + 1) / of_int b \<le> 1" using rb by simp
    then show ?thesis by (simp add: xq add_divide_distrib)
  qed
  have xabs: "\<bar>x\<bar> = real_of_int \<bar>a\<bar> / of_int b" using rb by (simp add: x_def)
  have small: "\<bar>x\<bar> / 2 ^ 53 < 1 / of_int b"
  proof -
    have "real_of_int \<bar>a\<bar> < real_of_int (2 ^ 53)" using a by (simp only: of_int_less_iff)
    then have "real_of_int \<bar>a\<bar> / 2 ^ 53 < 1" by simp
    then have "real_of_int \<bar>a\<bar> / 2 ^ 53 / of_int b < 1 / of_int b"
      using rb by (rule divide_strict_right_mono)
    then show ?thesis by (simp add: xabs)
  qed
  have ex: "- 1022 \<le> binaryExponent x"
  proof (rule ccontr)
    assume "\<not> - 1022 \<le> binaryExponent x"
    then have "binaryExponent x + 1 \<le> - 53" by simp
    then have "(2::real) powi (binaryExponent x + 1) \<le> 2 powi (- 53)" by (intro power_int_increasing) simp_all
    with binaryExponent_bounds(2)[OF x0] have "\<bar>x\<bar> < 2 powi (- 53)" by simp
    moreover have "1 / real_of_int b \<le> \<bar>x\<bar>"
    proof -
      have "1 \<le> real_of_int \<bar>a\<bar>" using a0 by linarith
      then show ?thesis using rb by (simp add: xabs divide_right_mono)
    qed
    moreover have "1 / 2 ^ 53 \<le> 1 / real_of_int b"
    proof -
      have "real_of_int b \<le> real_of_int (2 ^ 53)" using b(2) by (simp only: of_int_le_iff)
      then show ?thesis using rb by (simp add: frac_le)
    qed
    ultimately show False by (simp add: power_int_minus field_simps)
  qed
  have err: "\<bar>toBinary64 x - x\<bar> < 1 / of_int b"
    using toBinary64_error[OF x0 ex] small by linarith
  have "of_int q \<le> toBinary64 x" "toBinary64 x < of_int q + 1" using err lo hi by linarith+
  then have "\<lfloor>toBinary64 x\<rfloor> = q" by linarith
  then show ?thesis by (simp add: x_def q_def)
qed

subsection \<open>floorDiv and floorMod\<close>

text \<open>
  On integers whose magnitudes add up to at most \<open>2 ^ 53\<close> every intermediate result is
  an integer a double holds exactly, and the rounded quotient has the floor of the exact
  one.
\<close>

lemma floorDiv_int:
  assumes "0 < b" and "\<bar>a\<bar> + b \<le> 2 ^ 53"
  shows "floorDiv (of_int a) (of_int b) = Inr (a div b)"
proof -
  have "b \<le> 2 ^ 53" "\<bar>a\<bar> < 2 ^ 53" using assms by linarith+
  with assms(1) show ?thesis by (simp add: floorDiv_def floor_toBinary64_quotient)
qed

lemma floorMod_int:
  assumes "0 < b" and "\<bar>a\<bar> + b \<le> 2 ^ 53"
  shows "floorMod (of_int a) (of_int b) = Inr (of_int (a mod b))"
proof -
  have m: "0 \<le> a mod b" "a mod b < b" using assms(1) by simp_all
  have qb: "a div b * b = a - a mod b" by (simp add: minus_mod_eq_div_mult)
  have "\<bar>a div b * b\<bar> \<le> 2 ^ 53" using m assms(2) unfolding qb by linarith
  then have prod: "toBinary64 (of_int (a div b) * of_int b) = of_int (a div b * b)"
    using toBinary64_of_int [of "a div b * b"] by simp
  have "\<bar>a mod b\<bar> \<le> 2 ^ 53" using m assms by linarith
  then have diff: "toBinary64 (of_int a - of_int (a div b * b)) = of_int (a mod b)"
    using toBinary64_of_int [of "a mod b"] by (simp add: qb)
  have "toBinary64 (of_int a - toBinary64 (of_int (a div b) * of_int b)) = of_int (a mod b)"
    by (simp only: prod diff)
  then show ?thesis
    using assms(1) by (simp add: floorMod_def floorDiv_int [OF assms])
qed

text \<open>
  C5, amended. For all integers \<open>a\<close> and \<open>b > 0\<close> with \<open>|a| + b \<le> 2 ^ 53\<close>,
  \<open>floorDiv\<close> and \<open>floorMod\<close> return normally with \<open>floorDiv(a,b)*b + floorMod(a,b) = a\<close>,
  both as an equation of the values and as JavaScript evaluates the left-hand side, and
  \<open>0 \<le> floorMod(a,b) < b\<close>; and \<open>worldToChunk(-1, 16)\<close> is chunk \<open>-1\<close> with local
  coordinate \<open>15\<close>.
\<close>

theorem floorDiv_floorMod_law_in_range:
  "0 < b \<Longrightarrow> \<bar>a\<bar> + b \<le> 2 ^ 53 \<Longrightarrow>
     (\<exists>q m. floorDiv (of_int a) (of_int b) = Inr q \<and>
            floorMod (of_int a) (of_int b) = Inr m \<and>
            of_int q * of_int b + m = of_int a \<and>
            toBinary64 (toBinary64 (of_int q * of_int b) + m) = of_int a \<and>
            0 \<le> m \<and> m < of_int b) \<and>
     worldToChunk (- 1) 16 = Inr \<lparr>chunk = - 1, local = 15\<rparr>"
proof
  assume b: "0 < b" and r: "\<bar>a\<bar> + b \<le> 2 ^ 53"
  have m: "0 \<le> a mod b" "a mod b < b" using b by simp_all
  have qb: "a div b * b = a - a mod b" by (simp add: minus_mod_eq_div_mult)
  have law: "real_of_int (a div b) * real_of_int b + real_of_int (a mod b) = real_of_int a"
    by (metis div_mult_mod_eq of_int_add of_int_mult)
  have "\<bar>a div b * b\<bar> \<le> 2 ^ 53" using m r unfolding qb by linarith
  then have prod: "toBinary64 (of_int (a div b) * of_int b) = of_int (a div b * b)"
    using toBinary64_of_int [of "a div b * b"] by simp
  have "\<bar>a\<bar> \<le> 2 ^ 53" using b r by linarith
  then have "toBinary64 (of_int (a div b * b) + of_int (a mod b)) = of_int a"
    using toBinary64_of_int [of a] by (simp add: qb)
  then have js: "toBinary64 (toBinary64 (of_int (a div b) * of_int b) + of_int (a mod b)) =
      real_of_int a"
    by (simp only: prod)
  have lo: "0 \<le> real_of_int (a mod b)" using b by simp
  have hi: "real_of_int (a mod b) < real_of_int b" using b by simp
  from law js lo hi
  show "\<exists>q m. floorDiv (of_int a) (of_int b) = Inr q \<and>
            floorMod (of_int a) (of_int b) = Inr m \<and>
            of_int q * of_int b + m = of_int a \<and>
            toBinary64 (toBinary64 (of_int q * of_int b) + m) = of_int a \<and>
            0 \<le> m \<and> m < of_int b"
    using floorDiv_int [OF b r] floorMod_int [OF b r] by blast
next
  have "floorDiv (of_int (- 1)) (of_int 16) = Inr (- 1)"
    using floorDiv_int [of 16 "- 1"] by simp
  moreover have "floorMod (of_int (- 1)) (of_int 16) = Inr 15"
    using floorMod_int [of 16 "- 1"] by simp
  ultimately show "worldToChunk (- 1) 16 = Inr \<lparr>chunk = - 1, local = 15\<rparr>"
    by (simp add: worldToChunk_def)
qed

theorem floorDiv_floorMod_law_in_range_witness:
  "(0::int) < 4 \<and> \<bar>- 5\<bar> + 4 \<le> (2::int) ^ 53 \<and>
   (\<exists>q m. floorDiv (of_int (- 5)) (of_int 4) = Inr q \<and>
          floorMod (of_int (- 5)) (of_int 4) = Inr m \<and>
          of_int q * of_int 4 + m = of_int (- 5) \<and>
          toBinary64 (toBinary64 (of_int q * of_int 4) + m) = of_int (- 5) \<and>
          0 \<le> m \<and> m < of_int 4) \<and>
   worldToChunk (- 1) 16 = Inr \<lparr>chunk = - 1, local = 15\<rparr>"
  using floorDiv_floorMod_law_in_range [of 4 "- 5"] by simp

text \<open>
  C5 as stated, for all integers, fails where the product \<open>floorDiv(a,b) * b\<close> is not a
  double. For \<open>a = -(2 ^ 53 - 1)\<close> and \<open>b = 5\<close> the quotient floors to
  \<open>-1801439850948199\<close>, the product \<open>-9007199254740995\<close> is rounded to
  \<open>-9007199254740996\<close>, and \<open>floorMod(a, b)\<close> is \<open>5\<close>, which is not below \<open>b\<close>.
\<close>

theorem floorMod_reaches_b:
  "floorDiv (- 9007199254740991) 5 = Inr (- 1801439850948199) \<and>
   floorMod (- 9007199254740991) 5 = Inr 5"
  by code_simp

text \<open>Beyond \<open>2 ^ 53\<close> the quotient is rounded before the floor, here upwards.\<close>

lemma floorDiv_beyond_safe_range:
  "floorDiv 18014398509481988 3 = Inr 6004799503160663 \<and>
   (18014398509481988::int) div 3 = 6004799503160662"
  by code_simp

section \<open>Properties of the Map model\<close>

lemma map_has_delete: "map_has (map_delete m k) k' = (k' \<noteq> k \<and> map_has m k')"
  by (auto simp: map_has_def map_delete_def map_keys_def)

lemma map_keys_delete: "map_keys (map_delete m k) = filter (\<lambda>k'. k' \<noteq> k) (map_keys m)"
  by (induction m) (auto simp: map_delete_def map_keys_def)

lemma map_of_map_set: "map_of (map_set m k v) = (map_of m)(k \<mapsto> v)"
  by (induction m) (auto simp: fun_eq_iff)

lemma map_keys_map_set:
  "map_keys (map_set m k v) = (if k \<in> set (map_keys m) then map_keys m else map_keys m @ [k])"
  by (induction m) (auto simp: map_keys_def)

section \<open>Properties of chunk keys\<close>

text \<open>
  A key made by \<open>chunkKey\<close> from integer coordinates is read back by \<open>parseChunkKey\<close>
  as those coordinates; no \<open>NaN\<close> arises from the keys the manager makes.
\<close>

lemma digit_value_chunkKey_digit: "n < 10 \<Longrightarrow> digit_value (chunkKey_digit n) = Some n"
  by (simp add: digit_value_def chunkKey_digit_def Let_def)

lemma parse_digits_append:
  "parse_digits (xs @ ys) acc =
     (case parse_digits xs acc of None \<Rightarrow> None | Some a \<Rightarrow> parse_digits ys a)"
  by (induction xs arbitrary: acc) (auto split: option.splits)

lemma parse_digits_toString: "parse_digits (Number_toString_nat n) 0 = Some n"
proof (induction n rule: Number_toString_nat.induct)
  case (1 n)
  show ?case
  proof (cases "n < 10")
    case True
    then show ?thesis
      by (subst Number_toString_nat.simps) (simp add: digit_value_chunkKey_digit)
  next
    case False
    have "parse_digits (Number_toString_nat (n div 10) @ [chunkKey_digit (n mod 10)]) 0 = Some n"
      using "1.IH" [OF False]
      by (simp add: parse_digits_append digit_value_chunkKey_digit)
    then show ?thesis using False by (subst Number_toString_nat.simps) simp
  qed
qed

lemma toString_nat_digits:
  "c \<in> set (Number_toString_nat n) \<Longrightarrow> c \<noteq> CHR '','' \<and> c \<noteq> CHR ''-''"
proof (induction n rule: Number_toString_nat.induct)
  case (1 n)
  have d: "chunkKey_digit k \<noteq> CHR '','' \<and> chunkKey_digit k \<noteq> CHR ''-''" if "k < 10" for k
    using that digit_value_chunkKey_digit [OF that]
    by (auto simp: digit_value_def Let_def)
  show ?case
  proof (cases "n < 10")
    case True
    then show ?thesis using "1.prems" d [of n]
      by (subst (asm) Number_toString_nat.simps) simp
  next
    case False
    then have "c \<in> set (Number_toString_nat (n div 10)) \<or> c = chunkKey_digit (n mod 10)"
      using "1.prems" by (subst (asm) Number_toString_nat.simps) auto
    then show ?thesis using "1.IH" [OF False] d [of "n mod 10"] by auto
  qed
qed

lemma toString_nat_nonempty: "Number_toString_nat n \<noteq> []"
  by (subst Number_toString_nat.simps) simp

lemma Number_toString_roundtrip: "Number (Some (Number_toString i)) = Some i"
proof (cases "i < 0")
  case True
  then show ?thesis
    by (simp add: Number_def Number_toString_def toString_nat_nonempty parse_digits_toString)
next
  case False
  obtain c cs where s: "Number_toString_nat (nat i) = c # cs"
    using toString_nat_nonempty [of "nat i"] by (cases "Number_toString_nat (nat i)") auto
  have "c \<noteq> CHR ''-''" using toString_nat_digits [of c "nat i"] s by simp
  moreover have "parse_digits (c # cs) 0 = Some (nat i)"
    using parse_digits_toString [of "nat i"] s by simp
  ultimately show ?thesis using False s
    by (simp add: Number_def Number_toString_def)
qed

lemma toString_no_comma: "CHR '','' \<notin> set (Number_toString i)"
  using toString_nat_digits by (auto simp: Number_toString_def)

lemma split_on_none: "c \<notin> set a \<Longrightarrow> split_on c a = [a]"
  by (induction a) auto

lemma split_on_two: "c \<notin> set a \<Longrightarrow> c \<notin> set b \<Longrightarrow> split_on c (a @ c # b) = [a, b]"
  by (induction a) (auto simp: split_on_none)

lemma parseChunkKey_chunkKey:
  "parseChunkKey (chunkKey x z) = \<lparr>pcx = Some x, pcz = Some z\<rparr>"
proof -
  have "split_on CHR '','' (chunkKey x z) = [Number_toString x, Number_toString z]"
    unfolding chunkKey_def using split_on_two [OF toString_no_comma toString_no_comma] by simp
  then show ?thesis
    by (simp add: parseChunkKey_def array_at_def Number_toString_roundtrip)
qed

lemma keyInRadius_chunkKey:
  "keyInRadius (chunkKey x z) centerCx centerCz radius = isInRadius x z centerCx centerCz radius"
  by (simp add: keyInRadius_def parseChunkKey_chunkKey)

section \<open>Properties of engine/chunkManager.ts\<close>

text \<open>
  C7. A worker response whose chunk key is not in \<open>inflight\<close> leaves the manager, and so
  all four mappings, as it was (the function has no failing branch); a response whose key
  is in \<open>inflight\<close> removes exactly that key from \<open>inflight\<close> and stores the response
  under it in \<open>readyToApply\<close>, with \<open>queued\<close> and \<open>loaded\<close> untouched.
\<close>

theorem handleWorkerResponse_stale_or_inflight:
  "(\<not> map_has (inflight m) (chunkKey (res_cx r) (res_cz r)) \<longrightarrow>
      handleWorkerResponse m r = m) \<and>
   (map_has (inflight m) (chunkKey (res_cx r) (res_cz r)) \<longrightarrow>
      (let k = chunkKey (res_cx r) (res_cz r); m' = handleWorkerResponse m r
       in \<not> map_has (inflight m') k \<and>
          map_keys (inflight m') = filter (\<lambda>k'. k' \<noteq> k) (map_keys (inflight m)) \<and>
          map_has (readyToApply m') k \<and>
          map_of (readyToApply m') = (map_of (readyToApply m))(k \<mapsto> r) \<and>
          queued m' = queued m \<and> loaded m' = loaded m))"
  by (simp add: handleWorkerResponse_def Let_def map_has_delete map_keys_delete
      map_of_map_set map_has_def map_keys_map_set)

theorem handleWorkerResponse_stale_or_inflight_witness:
  "(let m = \<lparr>activeRadius = 0, removeRadius = 1, loaded = [],
             inflight = [(''0,0'', \<lparr>req_seedStr = ''demo'', req_seedInt = 2935829814,
                                    req_cx = Some 0, req_cz = Some 0\<rparr>)],
             queued = [], readyToApply = [], seedStr = Some ''demo'',
             seedInt = Some 2935829814\<rparr>;
        payload = \<lparr>positions = [], normals = [], colors = [], indices = [],
                   quadCount = 0, indexCount = 0\<rparr>;
        stale = \<lparr>key = ''5,5'', res_cx = 5, res_cz = 5, mesh = payload, forceApply = None\<rparr>;
        fresh = \<lparr>key = ''0,0'', res_cx = 0, res_cz = 0, mesh = payload, forceApply = None\<rparr>
    in \<not> map_has (inflight m) (chunkKey 5 5) \<and> handleWorkerResponse m stale = m \<and>
       map_has (inflight m) (chunkKey 0 0) \<and>
       inflight (handleWorkerResponse m fresh) = [] \<and>
       map_of (readyToApply (handleWorkerResponse m fresh)) (chunkKey 0 0) = Some fresh)"
proof -
  have k55: "chunkKey 5 5 = ''5,5''" by code_simp
  have k00: "chunkKey 0 0 = ''0,0''" by code_simp
  show ?thesis
    using handleWorkerResponse_stale_or_inflight
            [of "\<lparr>activeRadius = 0, removeRadius = 1, loaded = [],
             inflight = [(''0,0'', \<lparr>req_seedStr = ''demo'', req_seedInt = 2935829814,
                                    req_cx = Some 0, req_cz = Some 0\<rparr>)],
             queued = [], readyToApply = [], seedStr = Some ''demo'',
             seedInt = Some 2935829814\<rparr>"
                "\<lparr>key = ''5,5'', res_cx = 5, res_cz = 5, mesh = \<lparr>positions = [], normals = [], colors = [], indices = [],
                   quadCount = 0, indexCount = 0\<rparr>, forceApply = None\<rparr>"]
          handleWorkerResponse_stale_or_inflight
            [of "\<lparr>activeRadius = 0, removeRadius = 1, loaded = [],
             inflight = [(''0,0'', \<lparr>req_seedStr = ''demo'', req_seedInt = 2935829814,
                                    req_cx = Some 0, req_cz = Some 0\<rparr>)],
             queued = [], readyToApply = [], seedStr = Some ''demo'',
             seedInt = Some 2935829814\<rparr>"
                "\<lparr>key = ''0,0'', res_cx = 0, res_cz = 0, mesh = \<lparr>positions = [], normals = [], colors = [], indices = [],
                   quadCount = 0, indexCount = 0\<rparr>, forceApply = None\<rparr>"]
    by (simp add: k55 k00 Let_def map_has_def map_keys_def handleWorkerResponse_def map_delete_def)
qed

text \<open>The loops of \<open>computeNeededChunkKeys\<close> on integer counters.\<close>

lemma innerLoop_int:
  "innerLoop a b (Finite n) (Finite z) (Finite i) coords =
     Some (coords @ map (\<lambda>x. \<lparr>cx = Finite (a + x), cz = Finite (b + z)\<rparr>) [i..n])"
proof (induction "nat (n + 1 - i)" arbitrary: i coords)
  case 0
  then have "n < i" by simp
  then show ?case by (subst innerLoop.simps) simp
next
  case (Suc k)
  then have le: "i \<le> n" and k: "k = nat (n + 1 - (i + 1))" by simp_all
  have up: "[i..n] = i # [i + 1..n]" using le by (simp add: upto_rec1)
  show ?case
    by (subst innerLoop.simps) (simp add: le Suc.hyps(1) [OF k] up)
qed

lemma outerLoop_int:
  "outerLoop a b (Finite n) (Finite j) coords =
     Some (coords @ concat (map (\<lambda>z. map (\<lambda>x. \<lparr>cx = Finite (a + x), cz = Finite (b + z)\<rparr>)
                                         [- n..n]) [j..n]))"
proof (induction "nat (n + 1 - j)" arbitrary: j coords)
  case 0
  then have "n < j" by simp
  then show ?case by (subst outerLoop.simps) simp
next
  case (Suc k)
  then have le: "j \<le> n" and k: "k = nat (n + 1 - (j + 1))" by simp_all
  have up: "[j..n] = j # [j + 1..n]" using le by (simp add: upto_rec1)
  show ?case
    by (subst outerLoop.simps) (simp add: le Suc.hyps(1) [OF k] up innerLoop_int)
qed


text \<open>On integer coordinates the comparator is the order of the triples.\<close>

lemma compareByDistance_value:
  "compareByDistance a b (finiteCoord c) (finiteCoord d) =
     Finite (if chebyshevDistance (cx c) (cz c) a b \<noteq> chebyshevDistance (cx d) (cz d) a b
             then chebyshevDistance (cx c) (cz c) a b - chebyshevDistance (cx d) (cz d) a b
             else if cz c \<noteq> cz d then cz c - cz d else cx c - cx d)"
  by (simp add: compareByDistance_def chebyshevDistance_number_def chebyshevDistance_def
      finiteCoord_def number_sub_def Let_def)

lemma compareByDistance_finite:
  "number_less (Finite 0) (compareByDistance a b (finiteCoord c) (finiteCoord d)) =
     (\<not> distanceKey a b c \<le> distanceKey a b d)"
  unfolding compareByDistance_value distanceKey_def
  by (simp add: less_eq_prod_def) linarith

lemma Array_sort_insert_finite:
  "Array_sort_insert (compareByDistance a b) (finiteCoord c) (map finiteCoord ds) =
     map finiteCoord (insort_key (distanceKey a b) c ds)"
  by (induction ds) (simp_all add: compareByDistance_finite)

lemma Array_sort_finite:
  "Array_sort (compareByDistance a b) (map finiteCoord cs) =
     map finiteCoord (sort_key (distanceKey a b) cs)"
  by (induction cs) (simp_all add: Array_sort_def sort_key_def Array_sort_insert_finite)

lemma chunkKey_number_finite:
  "chunkKey_number (cx (finiteCoord c)) (cz (finiteCoord c)) = chunkKey (cx c) (cz c)"
  by (simp add: chunkKey_number_def chunkKey_def Number_toString_number_def finiteCoord_def)

lemma computeNeededChunkKeys_finite:
  "computeNeededChunkKeys a b (Finite r) = Some (computeNeededChunkKeys_int a b \<lfloor>r\<rfloor>)"
proof -
  define n where "n = max 0 \<lfloor>r\<rfloor>"
  define cs :: "int ChunkCoord2D list" where
    "cs = concat (map (\<lambda>dz. map (\<lambda>dx. \<lparr>cx = a + dx, cz = b + dz\<rparr>) [- n..n]) [- n..n])"
  have loops: "outerLoop a b (Finite n) (Finite (- n)) [] = Some (map finiteCoord cs)"
    by (simp add: outerLoop_int cs_def map_concat comp_def finiteCoord_def)
  have "computeNeededChunkKeys a b (Finite r) =
          Some (map (\<lambda>c. chunkKey_number (cx c) (cz c))
                  (Array_sort (compareByDistance a b) (map finiteCoord cs)))"
    using loops by (simp add: computeNeededChunkKeys_def Math_floor_def n_def)
  also have "\<dots> = Some (computeNeededChunkKeys_int a b \<lfloor>r\<rfloor>)"
    by (simp add: Array_sort_finite comp_def chunkKey_number_finite
        computeNeededChunkKeys_int_def n_def cs_def Let_def)
  finally show ?thesis .
qed

lemma computeNeededChunkKeys_at_int:
  "computeNeededChunkKeys a b (Finite (of_int r)) = Some (computeNeededChunkKeys_int a b r)"
  by (simp add: computeNeededChunkKeys_finite)


lemma innerLoop_stuck:
  assumes run: "innerLoop a b radius dz dx coords = Some r"
  shows "\<not> (dx = NegInfinity \<and> radius = PosInfinity)"
proof (rule innerLoop.raw_induct
    [where P = "\<lambda>a b radius dz dx coords r. \<not> (dx = NegInfinity \<and> radius = PosInfinity)",
     OF _ run])
  fix f :: "int \<Rightarrow> int \<Rightarrow> int number \<Rightarrow> int number \<Rightarrow> int number \<Rightarrow>
       int number ChunkCoord2D list \<Rightarrow> int number ChunkCoord2D list option"
  fix a b radius dz dx coords r
  assume ih: "\<And>a b radius dz dx coords r.
      f a b radius dz dx coords = Some r \<Longrightarrow> \<not> (dx = NegInfinity \<and> radius = PosInfinity)"
    and step: "(if number_le dx radius
      then f a b radius dz (number_add dx (Finite 1))
             (coords @ [\<lparr>cx = number_add (Finite a) dx, cz = number_add (Finite b) dz\<rparr>])
      else Some coords) = Some r"
  show "\<not> (dx = NegInfinity \<and> radius = PosInfinity)"
  proof
    assume "dx = NegInfinity \<and> radius = PosInfinity"
    with step have "f a b PosInfinity dz NegInfinity
        (coords @ [\<lparr>cx = NegInfinity, cz = number_add (Finite b) dz\<rparr>]) = Some r"
      by simp
    from ih [OF this] show False by simp
  qed
qed

lemma computeNeededChunkKeys_Infinity: "computeNeededChunkKeys a b PosInfinity = None"
proof -
  have "innerLoop a b PosInfinity NegInfinity NegInfinity [] = None"
    using innerLoop_stuck [of a b PosInfinity NegInfinity NegInfinity "[]"] by (cases "innerLoop a b PosInfinity NegInfinity NegInfinity []") auto
  then show ?thesis
    by (simp add: computeNeededChunkKeys_def Math_floor_def outerLoop.simps)
qed











text \<open>
  A radius \<open>Infinity\<close> is not clamped either, and with it \<open>computeNeededChunkKeys\<close>
  never returns: the counter of the inner loop stays at \<open>-Infinity\<close>.
\<close>

lemma infinite_radius_constructed:
  "new_ChunkManager (Some \<lparr>opt_activeRadius = Some PosInfinity, opt_removeRadius = Some PosInfinity,
                           opt_maxInflight = None\<rparr>) = Inr (NonFiniteRadii PosInfinity PosInfinity)"
  by (simp add: new_ChunkManager_def Math_floor_def Let_def)

text \<open>\<open>dequeueRequest\<close> never looks at \<open>inflight\<close>.\<close>

lemma dequeueRequest_ignores_inflight:
  "queued m = (k, req) # rest \<Longrightarrow>
   dequeueRequest m =
     (m\<lparr>queued := map_delete (queued m) k, inflight := map_set (inflight m) k req\<rparr>, Some req)"
  by (simp add: dequeueRequest_def)

text \<open>
  C1, on the code. The manager has no \<open>maxInflight\<close>: \<open>dequeueRequest\<close> promotes the first
  queued entry whenever there is one. Built with \<open>activeRadius = 1\<close>, \<open>removeRadius = 2\<close>
  and \<open>maxInflight = 1\<close> and ticked twice at the origin with no response in between, the
  manager answers the second tick with a new request, for chunk \<open>(-1,-1)\<close>, and then has
  two chunks in flight.
\<close>

theorem second_tick_requests_again:
  "new_ChunkManager (Some \<lparr>opt_activeRadius = Some (Finite 1),
                           opt_removeRadius = Some (Finite 2),
                           opt_maxInflight = Some (Finite 1)\<rparr>) =
     Inr (Manager \<lparr>activeRadius = 1, removeRadius = 2, loaded = [], inflight = [], queued = [],
                   readyToApply = [], seedStr = None, seedInt = None\<rparr>) \<and>
   map_sum id (\<lambda>(m, rs). (map request rs, map_keys (inflight m), stat_inflight (getStats m)))
     (ticks \<lparr>activeRadius = 1, removeRadius = 2, loaded = [], inflight = [], queued = [],
             readyToApply = [], seedStr = None, seedInt = None\<rparr>
        [\<lparr>playerX = 0, playerZ = 0, p_seedStr = ''demo'', workerResponses = None\<rparr>,
         \<lparr>playerX = 0, playerZ = 0, p_seedStr = ''demo'', workerResponses = None\<rparr>])
   = Inr ([Some \<lparr>req_seedStr = ''demo'', req_seedInt = 2935829814,
                 req_cx = Some 0, req_cz = Some 0\<rparr>,
           Some \<lparr>req_seedStr = ''demo'', req_seedInt = 2935829814,
                 req_cx = Some (- 1), req_cz = Some (- 1)\<rparr>],
          [''0,0'', ''-1,-1''], 2)"
  by code_simp


lemma worldToChunk_CHUNK_SIZE:
  "worldToChunk x (of_int CHUNK_SIZE) =
     Inr \<lparr>chunk = \<lfloor>toBinary64 (x / 16)\<rfloor>,
          local = toBinary64 (x - toBinary64 (of_int \<lfloor>toBinary64 (x / 16)\<rfloor> * 16))\<rparr>"
  by (simp add: worldToChunk_def floorMod_def floorDiv_def CHUNK_SIZE_def)

lemma withinRemoveRadius_eq:
  "withinRemoveRadius m p k =
     keyInRadius k \<lfloor>toBinary64 (playerX p / 16)\<rfloor> \<lfloor>toBinary64 (playerZ p / 16)\<rfloor>
       (removeRadius m)"
  by (simp add: withinRemoveRadius_def worldToChunk_CHUNK_SIZE)

lemma handleWorkerResponse_frame:
  "loaded (handleWorkerResponse m r) = loaded m \<and>
   removeRadius (handleWorkerResponse m r) = removeRadius m \<and>
   seedStr (handleWorkerResponse m r) = seedStr m"
  by (simp add: handleWorkerResponse_def Let_def)

lemma handleWorkerResponses_frame:
  "loaded (fold (\<lambda>response m'. handleWorkerResponse m' response) rs m) = loaded m \<and>
   removeRadius (fold (\<lambda>response m'. handleWorkerResponse m' response) rs m) = removeRadius m \<and>
   seedStr (fold (\<lambda>response m'. handleWorkerResponse m' response) rs m) = seedStr m"
  by (induction rs arbitrary: m) (simp_all add: handleWorkerResponse_frame)

lemma unload_fold:
  "fold (\<lambda>k (m', acc). if P k then (m', acc)
                         else (m'\<lparr>loaded := map_delete (loaded m') k\<rparr>, acc @ [k])) ks (m, acc) =
   (m\<lparr>loaded := filter (\<lambda>e. fst e \<notin> set (filter (\<lambda>k. \<not> P k) ks)) (loaded m)\<rparr>,
    acc @ filter (\<lambda>k. \<not> P k) ks)"
proof (induction ks arbitrary: m acc)
  case Nil
  then show ?case by simp
next
  case (Cons k ks)
  show ?case
  proof (cases "P k")
    case True
    then show ?thesis using Cons.IH [of m acc] by simp
  next
    case False
    have "filter (\<lambda>e. fst e \<notin> set (filter (\<lambda>k. \<not> P k) ks)) (map_delete (loaded m) k) =
          filter (\<lambda>e. fst e \<notin> set (filter (\<lambda>k. \<not> P k) (k # ks))) (loaded m)"
      using False by (auto simp: map_delete_def intro: filter_cong)
    then show ?thesis
      using False Cons.IH [of "m\<lparr>loaded := map_delete (loaded m) k\<rparr>" "acc @ [k]"] by simp
  qed
qed

lemma unloadOutsideRemoveRadius_eq:
  "unloadOutsideRemoveRadius m a b acc =
     (m\<lparr>loaded := filter (\<lambda>e. keyInRadius (fst e) a b (removeRadius m)) (loaded m)\<rparr>,
      acc @ filter (\<lambda>k. \<not> keyInRadius k a b (removeRadius m)) (map_keys (loaded m)))"
proof -
  have "filter (\<lambda>e. fst e \<notin> set (filter (\<lambda>k. \<not> keyInRadius k a b (removeRadius m))
                                      (map_keys (loaded m)))) (loaded m) =
        filter (\<lambda>e. keyInRadius (fst e) a b (removeRadius m)) (loaded m)"
    by (rule filter_cong) (auto simp: map_keys_def)
  then show ?thesis
    unfolding unloadOutsideRemoveRadius_def unload_fold by simp
qed

lemma refreshQueue_frame:
  "loaded (refreshQueue m a b) = loaded m \<and> removeRadius (refreshQueue m a b) = removeRadius m \<and>
   seedStr (refreshQueue m a b) = seedStr m \<and> readyToApply (refreshQueue m a b) = readyToApply m"
  by (simp add: refreshQueue_def Let_def split: option.splits)

lemma dequeueRequest_frame:
  "loaded (fst (dequeueRequest m)) = loaded m \<and>
   removeRadius (fst (dequeueRequest m)) = removeRadius m \<and>
   seedStr (fst (dequeueRequest m)) = seedStr m \<and>
   readyToApply (fst (dequeueRequest m)) = readyToApply m"
  by (simp add: dequeueRequest_def split: list.splits prod.splits)

lemma dequeueApply_step_best:
  "(\<forall>k. bestKey st = Some k \<longrightarrow> keyInRadius k a b r) \<Longrightarrow>
   bestKey (dequeueApply_step a b r e st) = Some k \<Longrightarrow> keyInRadius k a b r"
  by (auto simp: dequeueApply_step_def Let_def keyInRadius_def split: option.splits if_splits)

lemma dequeueApply_scan_best:
  "(\<forall>k. bestKey st = Some k \<longrightarrow> keyInRadius k a b r) \<Longrightarrow>
   bestKey (fold (dequeueApply_step a b r) es st) = Some k \<Longrightarrow> keyInRadius k a b r"
proof (induction es arbitrary: st)
  case Nil
  then show ?case by simp
next
  case (Cons e es)
  have "\<forall>k. bestKey (dequeueApply_step a b r e st) = Some k \<longrightarrow> keyInRadius k a b r"
    using Cons.prems(1) dequeueApply_step_best by blast
  then show ?case using Cons.IH Cons.prems(2) by simp
qed

lemma dequeueApply_loaded:
  "removeRadius (fst (dequeueApply m a b)) = removeRadius m \<and>
   seedStr (fst (dequeueApply m a b)) = seedStr m \<and>
   (loaded (fst (dequeueApply m a b)) = loaded m \<or>
    (\<exists>k v. keyInRadius k a b (removeRadius m) \<and>
       loaded (fst (dequeueApply m a b)) = map_set (loaded m) k v))"
proof -
  let ?init = "\<lparr>scan_ready = readyToApply m, bestKey = None, bestResponse = None,
                  bestDistance = None, bestCx = 0, bestCz = 0\<rparr>"
  let ?final = "fold (dequeueApply_step a b (removeRadius m)) (readyToApply m) ?init"
  have best: "keyInRadius k a b (removeRadius m)" if "bestKey ?final = Some k" for k
  proof (rule dequeueApply_scan_best [where st = ?init and es = "readyToApply m"])
    show "\<forall>k. bestKey ?init = Some k \<longrightarrow> keyInRadius k a b (removeRadius m)" by simp
    show "bestKey ?final = Some k" by (rule that)
  qed
  show ?thesis
    using best by (auto simp: dequeueApply_def Let_def split: option.splits)
qed


lemma map_set_distinct: "distinct (map_keys m) \<Longrightarrow> distinct (map_keys (map_set m k v))"
  by (simp add: map_keys_map_set)

lemma map_set_keys: "set (map_keys (map_set m k v)) = insert k (set (map_keys m))"
  by (auto simp: map_keys_map_set)

lemma map_keys_filter: "map_keys (filter (\<lambda>e. P (fst e)) m) = filter P (map_keys m)"
  by (induction m) (auto simp: map_keys_def)

text \<open>One tick with the tracked seed.\<close>

lemma tick_same_seed:
  assumes seed: "seedStr m = Some (p_seedStr p)"
  shows "\<exists>m' r. tick m p = Inr (m', r) \<and>
           removeRadius m' = removeRadius m \<and> seedStr m' = seedStr m \<and>
           unloadKeys r = filter (\<lambda>k. \<not> withinRemoveRadius m p k) (map_keys (loaded m)) \<and>
           (set (map_keys (loaded m')) = set (filter (withinRemoveRadius m p) (map_keys (loaded m))) \<or>
            (\<exists>k. withinRemoveRadius m p k \<and>
               set (map_keys (loaded m')) =
                 insert k (set (filter (withinRemoveRadius m p) (map_keys (loaded m)))))) \<and>
           (distinct (map_keys (loaded m)) \<longrightarrow> distinct (map_keys (loaded m')))"
proof -
  define a where "a = \<lfloor>toBinary64 (playerX p / 16)\<rfloor>"
  define b where "b = \<lfloor>toBinary64 (playerZ p / 16)\<rfloor>"
  define m2 where "m2 = fold (\<lambda>response m'. handleWorkerResponse m' response)
                 (case workerResponses p of None \<Rightarrow> [] | Some rs \<Rightarrow> rs) m"
  define m3 where "m3 = m2\<lparr>queued := pruneOutsideRemoveRadius m2 (queued m2) a b\<rparr>"
  define m4 where "m4 = m3\<lparr>inflight := pruneOutsideRemoveRadius m3 (inflight m3) a b\<rparr>"
  define m5 where "m5 = m4\<lparr>readyToApply := pruneOutsideRemoveRadius m4 (readyToApply m4) a b\<rparr>"
  define m6 where "m6 = m5\<lparr>loaded := filter (\<lambda>e. keyInRadius (fst e) a b (removeRadius m)) (loaded m)\<rparr>"
  define m8 where "m8 = fst (dequeueRequest (refreshQueue m6 a b))"
  define m9 where "m9 = fst (dequeueApply m8 a b)"
  have m2: "loaded m2 = loaded m" "removeRadius m2 = removeRadius m" "seedStr m2 = seedStr m"
    unfolding m2_def using handleWorkerResponses_frame by blast+
  have m5: "loaded m5 = loaded m" "removeRadius m5 = removeRadius m" "seedStr m5 = seedStr m"
    unfolding m5_def m4_def m3_def using m2 by simp_all
  have unl: "unloadOutsideRemoveRadius m5 a b [] =
      (m6, filter (\<lambda>k. \<not> keyInRadius k a b (removeRadius m)) (map_keys (loaded m)))"
    unfolding unloadOutsideRemoveRadius_eq m6_def using m5 by simp
  have m6: "loaded m6 = filter (\<lambda>e. keyInRadius (fst e) a b (removeRadius m)) (loaded m)"
    "removeRadius m6 = removeRadius m" "seedStr m6 = seedStr m"
    unfolding m6_def using m5 by simp_all
  have m8: "loaded m8 = loaded m6" "removeRadius m8 = removeRadius m" "seedStr m8 = seedStr m"
    unfolding m8_def using m6 dequeueRequest_frame [of "refreshQueue m6 a b"]
      refreshQueue_frame [of m6 a b] by simp_all
  have m9: "removeRadius m9 = removeRadius m" "seedStr m9 = seedStr m"
    "loaded m9 = loaded m8 \<or>
      (\<exists>k v. keyInRadius k a b (removeRadius m) \<and> loaded m9 = map_set (loaded m8) k v)"
    unfolding m9_def using dequeueApply_loaded [of m8 a b] m8 by simp_all
  have tick_eq: "tick m p =
      Inr (m9, \<lparr>request = snd (dequeueRequest (refreshQueue m6 a b)),
                tick_apply = snd (dequeueApply m8 a b),
                unloadKeys = filter (\<lambda>k. \<not> keyInRadius k a b (removeRadius m))
                               (map_keys (loaded m))\<rparr>)"
    using seed
    by (simp add: tick_def resetForSeedIfNeeded_def worldToChunk_CHUNK_SIZE Let_def
        split_beta unloadOutsideRemoveRadius_eq handleWorkerResponses_frame
        m9_def m8_def m6_def m5_def m4_def m3_def m2_def a_def b_def)
  have wr: "withinRemoveRadius m p = (\<lambda>k. keyInRadius k a b (removeRadius m))"
    by (simp add: fun_eq_iff withinRemoveRadius_eq a_def b_def)
  have keys8: "map_keys (loaded m8) = filter (withinRemoveRadius m p) (map_keys (loaded m))"
    unfolding m8(1) m6(1) wr by (rule map_keys_filter)
  have sets: "set (map_keys (loaded m9)) = set (filter (withinRemoveRadius m p) (map_keys (loaded m))) \<or>
            (\<exists>k. withinRemoveRadius m p k \<and>
               set (map_keys (loaded m9)) =
                 insert k (set (filter (withinRemoveRadius m p) (map_keys (loaded m)))))"
    using m9(3) keys8 wr map_set_keys by metis
  have dist: "distinct (map_keys (loaded m)) \<longrightarrow> distinct (map_keys (loaded m9))"
    using m9(3) keys8 map_set_distinct by (metis distinct_filter)
  show ?thesis
    using tick_eq m9(1,2) sets dist wr by simp
qed


lemma count_list_distinct_mem:
  "distinct xs \<Longrightarrow> x \<in> set xs \<Longrightarrow> count_list xs x = 1"
  by (induction xs) (auto simp: count_list_0_iff)

lemma withinRemoveRadius_cong:
  "removeRadius m' = removeRadius m \<Longrightarrow> withinRemoveRadius m' p k = withinRemoveRadius m p k"
  by (simp add: withinRemoveRadius_eq)

lemma tick_keeps_in_range:
  assumes "seedStr m = Some (p_seedStr p)" and "map_has (loaded m) k"
    and "withinRemoveRadius m p k" and "distinct (map_keys (loaded m))"
  shows "\<exists>m' r. tick m p = Inr (m', r) \<and> removeRadius m' = removeRadius m \<and>
           seedStr m' = seedStr m \<and> map_has (loaded m') k \<and> k \<notin> set (unloadKeys r) \<and>
           distinct (map_keys (loaded m'))"
  using tick_same_seed [OF assms(1)] assms(2-4) unfolding map_has_def
  by (elim exE conjE) (rule exI, rule exI, auto)

lemma tick_unloads_out_of_range:
  assumes "seedStr m = Some (p_seedStr p)" and "map_has (loaded m) k"
    and "\<not> withinRemoveRadius m p k" and "distinct (map_keys (loaded m))"
  shows "\<exists>m' r. tick m p = Inr (m', r) \<and> count_list (unloadKeys r) k = 1 \<and>
           \<not> map_has (loaded m') k"
proof -
  from tick_same_seed [OF assms(1)] obtain m' r where t: "tick m p = Inr (m', r)"
    and u: "unloadKeys r = filter (\<lambda>k. \<not> withinRemoveRadius m p k) (map_keys (loaded m))"
    and l: "set (map_keys (loaded m')) = set (filter (withinRemoveRadius m p) (map_keys (loaded m))) \<or>
            (\<exists>k. withinRemoveRadius m p k \<and>
               set (map_keys (loaded m')) =
                 insert k (set (filter (withinRemoveRadius m p) (map_keys (loaded m)))))"
    by blast
  have "count_list (unloadKeys r) k = 1"
    unfolding u using assms(2-4) by (intro count_list_distinct_mem) (auto simp: map_has_def)
  moreover have "\<not> map_has (loaded m') k"
    using l assms(3) by (auto simp: map_has_def)
  ultimately show ?thesis using t by blast
qed

text \<open>
  C6, amended. Take a chunk key \<open>k\<close> that is in \<open>loaded\<close> and a run of ticks that all
  carry the tracked seed, in which the chunk is within \<open>removeRadius\<close> of the center at
  every tick but the last. Then every tick returns, the key stays in \<open>loaded\<close> after each
  tick before the last and is in none of their \<open>unloadKeys\<close>, and the last tick, the
  first one out of range, reports the key in its \<open>unloadKeys\<close> exactly once and drops it
  from \<open>loaded\<close>.
\<close>

theorem loaded_chunk_unloaded_once:
  assumes "distinct (map_keys (loaded m))" and "map_has (loaded m) k" and "seedStr m = Some s"
    and "\<forall>p \<in> set ps. p_seedStr p = s \<and> withinRemoveRadius m p k"
    and "p_seedStr q = s" and "\<not> withinRemoveRadius m q k"
  shows "\<exists>m' rs r. ticks m (ps @ [q]) = Inr (m', rs @ [r]) \<and> length rs = length ps \<and>
           (\<forall>r' \<in> set rs. k \<notin> set (unloadKeys r')) \<and>
           count_list (unloadKeys r) k = 1 \<and> \<not> map_has (loaded m') k \<and>
           (\<forall>n \<le> length ps. \<exists>m'' rs''. ticks m (take n ps) = Inr (m'', rs'') \<and>
                                map_has (loaded m'') k)"
  using assms
proof (induction ps arbitrary: m)
  case Nil
  from tick_unloads_out_of_range [of m q k] Nil
  obtain m' r where "tick m q = Inr (m', r)" "count_list (unloadKeys r) k = 1"
    "\<not> map_has (loaded m') k" by auto
  then have "ticks m ([] @ [q]) = Inr (m', [] @ [r]) \<and> length ([]::ChunkManagerTickResult list) = length ([]::ChunkManagerTickParams list) \<and>
           (\<forall>r' \<in> set []. k \<notin> set (unloadKeys r')) \<and>
           count_list (unloadKeys r) k = 1 \<and> \<not> map_has (loaded m') k \<and>
           (\<forall>n \<le> length ([]::ChunkManagerTickParams list). \<exists>m'' rs''. ticks m (take n []) = Inr (m'', rs'') \<and>
                                map_has (loaded m'') k)"
    using Nil.prems(2) by simp
  then show ?case by blast
next
  case (Cons p ps)
  from Cons.prems have p: "p_seedStr p = s" "withinRemoveRadius m p k" by simp_all
  from tick_keeps_in_range [of m p k] Cons.prems(1-3) p
  obtain m1 r1 where t1: "tick m p = Inr (m1, r1)" and rr: "removeRadius m1 = removeRadius m"
    and s1: "seedStr m1 = Some s" and l1: "map_has (loaded m1) k"
    and u1: "k \<notin> set (unloadKeys r1)" and d1: "distinct (map_keys (loaded m1))"
    by auto
  have w: "withinRemoveRadius m1 p' k = withinRemoveRadius m p' k" for p'
    using rr by (rule withinRemoveRadius_cong)
  have "\<exists>m' rs r. ticks m1 (ps @ [q]) = Inr (m', rs @ [r]) \<and> length rs = length ps \<and>
           (\<forall>r' \<in> set rs. k \<notin> set (unloadKeys r')) \<and>
           count_list (unloadKeys r) k = 1 \<and> \<not> map_has (loaded m') k \<and>
           (\<forall>n \<le> length ps. \<exists>m'' rs''. ticks m1 (take n ps) = Inr (m'', rs'') \<and>
                                map_has (loaded m'') k)"
    using Cons.prems(4-6) by (intro Cons.IH d1 l1 s1) (simp_all add: w)
  then obtain m' rs r where run: "ticks m1 (ps @ [q]) = Inr (m', rs @ [r])"
    and len: "length rs = length ps" and no: "\<forall>r' \<in> set rs. k \<notin> set (unloadKeys r')"
    and once: "count_list (unloadKeys r) k = 1" and gone: "\<not> map_has (loaded m') k"
    and pre: "\<forall>n \<le> length ps. \<exists>m'' rs''. ticks m1 (take n ps) = Inr (m'', rs'') \<and>
                                map_has (loaded m'') k"
    by blast
  have run': "ticks m ((p # ps) @ [q]) = Inr (m', (r1 # rs) @ [r])"
    using t1 run by simp
  have pre': "\<exists>m'' rs''. ticks m (take n (p # ps)) = Inr (m'', rs'') \<and> map_has (loaded m'') k"
    if "n \<le> length (p # ps)" for n
  proof (cases n)
    case 0
    then show ?thesis using Cons.prems(2) by simp
  next
    case (Suc n')
    with that pre obtain m'' rs'' where "ticks m1 (take n' ps) = Inr (m'', rs'')"
      "map_has (loaded m'') k" by auto
    then show ?thesis using Suc t1 by simp
  qed
  have "ticks m ((p # ps) @ [q]) = Inr (m', (r1 # rs) @ [r]) \<and>
        length (r1 # rs) = length (p # ps) \<and>
        (\<forall>r' \<in> set (r1 # rs). k \<notin> set (unloadKeys r')) \<and>
        count_list (unloadKeys r) k = 1 \<and> \<not> map_has (loaded m') k \<and>
        (\<forall>n \<le> length (p # ps). \<exists>m'' rs''. ticks m (take n (p # ps)) = Inr (m'', rs'') \<and>
                                map_has (loaded m'') k)"
    using run' len no u1 once gone pre' by simp
  then show ?case by blast
qed


theorem loaded_chunk_unloaded_once_witness:
  "distinct (map_keys (loaded managerWithOrigin)) \<and>
   map_has (loaded managerWithOrigin) ''0,0'' \<and>
   seedStr managerWithOrigin = Some ''demo'' \<and>
   p_seedStr (tickAt 16 0 ''demo'' None) = ''demo'' \<and>
   withinRemoveRadius managerWithOrigin (tickAt 16 0 ''demo'' None) ''0,0'' \<and>
   p_seedStr (tickAt 32 0 ''demo'' None) = ''demo'' \<and>
   \<not> withinRemoveRadius managerWithOrigin (tickAt 32 0 ''demo'' None) ''0,0'' \<and>
   (\<exists>m' rs r. ticks managerWithOrigin [tickAt 16 0 ''demo'' None, tickAt 32 0 ''demo'' None] =
                 Inr (m', rs @ [r]) \<and>
       length rs = 1 \<and> count_list (unloadKeys r) ''0,0'' = 1 \<and>
       \<not> map_has (loaded m') ''0,0'')"
proof -
  have h1: "distinct (map_keys (loaded managerWithOrigin))" by code_simp
  have h2: "map_has (loaded managerWithOrigin) ''0,0''" by code_simp
  have h3: "seedStr managerWithOrigin = Some ''demo''" by code_simp
  have h4a: "p_seedStr (tickAt 16 0 ''demo'' None) = ''demo''" by code_simp
  have h4b: "withinRemoveRadius managerWithOrigin (tickAt 16 0 ''demo'' None) ''0,0''"
    by code_simp
  have h4: "\<forall>p \<in> set [tickAt 16 0 ''demo'' None].
      p_seedStr p = ''demo'' \<and> withinRemoveRadius managerWithOrigin p ''0,0''"
    using h4a h4b by simp
  have h5: "p_seedStr (tickAt 32 0 ''demo'' None) = ''demo''" by code_simp
  have h6: "\<not> withinRemoveRadius managerWithOrigin (tickAt 32 0 ''demo'' None) ''0,0''"
    by code_simp
  from loaded_chunk_unloaded_once [OF h1 h2 h3 h4 h5 h6]
  obtain m' rs r where
    "ticks managerWithOrigin ([tickAt 16 0 ''demo'' None] @ [tickAt 32 0 ''demo'' None]) =
       Inr (m', rs @ [r])"
    "length rs = length [tickAt 16 0 ''demo'' None]"
    "count_list (unloadKeys r) ''0,0'' = 1" "\<not> map_has (loaded m') ''0,0''"
    by blast
  then have "\<exists>m' rs r.
      ticks managerWithOrigin [tickAt 16 0 ''demo'' None, tickAt 32 0 ''demo'' None] =
        Inr (m', rs @ [r]) \<and>
      length rs = 1 \<and> count_list (unloadKeys r) ''0,0'' = 1 \<and>
      \<not> map_has (loaded m') ''0,0''"
    by auto
  then show ?thesis
    using h1 h2 h3 h4a h4b h5 h6 by (intro conjI)
qed

text \<open>
  C6 as stated fails on a tick that changes the seed: \<open>resetForSeedIfNeeded\<close> reports
  every loaded key as unloaded and clears \<open>loaded\<close>, whatever the distance. Here chunk
  \<open>(0,0)\<close> is loaded, the player stands in it, and the tick with the seed \<open>other\<close>
  unloads it.
\<close>

theorem seed_change_unloads_chunk_in_range:
  "map_has (loaded managerWithOrigin) ''0,0'' \<and>
   withinRemoveRadius managerWithOrigin (tickAt 0 0 ''other'' None) ''0,0'' \<and>
   tick managerWithOrigin (tickAt 0 0 ''other'' None) =
     Inr (\<lparr>activeRadius = 0, removeRadius = 1, loaded = [],
           inflight = [(''0,0'', \<lparr>req_seedStr = ''other'', req_seedInt = seedToInt ''other'',
                                  req_cx = Some 0, req_cz = Some 0\<rparr>)],
           queued = [], readyToApply = [], seedStr = Some ''other'',
           seedInt = Some (seedToInt ''other'')\<rparr>,
          \<lparr>request = Some \<lparr>req_seedStr = ''other'', req_seedInt = seedToInt ''other'',
                             req_cx = Some 0, req_cz = Some 0\<rparr>,
           tick_apply = None, unloadKeys = [''0,0'']\<rparr>)"
  by code_simp

text \<open>The manager of this example is the one the constructor and two ticks produce.\<close>

lemma managerWithOrigin_reached:
  "new_ChunkManager (Some \<lparr>opt_activeRadius = Some (Finite 0), opt_removeRadius = Some (Finite 1),
                           opt_maxInflight = None\<rparr>) =
     Inr (Manager \<lparr>activeRadius = 0, removeRadius = 1, loaded = [], inflight = [], queued = [],
                   readyToApply = [], seedStr = None, seedInt = None\<rparr>) \<and>
   map_sum id fst
     (ticks \<lparr>activeRadius = 0, removeRadius = 1, loaded = [], inflight = [], queued = [],
             readyToApply = [], seedStr = None, seedInt = None\<rparr>
        [tickAt 0 0 ''demo'' None, tickAt 0 0 ''demo'' (Some [makeResponse 0 0])]) =
     Inr managerWithOrigin"
  by code_simp

text \<open>The keys of \<open>loaded\<close> stay distinct, as those of a \<open>Map\<close> are.\<close>

lemma tick_after_reset:
  assumes "tick m p = Inr (m', r)"
  shows "\<exists>r'. tick (m\<lparr>loaded := [], inflight := [], queued := [], readyToApply := [],
                      seedStr := Some (p_seedStr p),
                      seedInt := Some (seedToInt (p_seedStr p))\<rparr>) p = Inr (m', r') \<or>
               seedStr m = Some (p_seedStr p)"
  using assms
  by (auto simp: tick_def resetForSeedIfNeeded_def worldToChunk_CHUNK_SIZE Let_def
      split_beta unloadOutsideRemoveRadius_eq)

lemma tick_loaded_distinct:
  assumes "distinct (map_keys (loaded m))" and "tick m p = Inr (m', r)"
  shows "distinct (map_keys (loaded m'))"
proof (cases "seedStr m = Some (p_seedStr p)")
  case True
  from tick_same_seed [OF True] assms show ?thesis by auto
next
  case False
  let ?m1 = "m\<lparr>loaded := [], inflight := [], queued := [], readyToApply := [],
                      seedStr := Some (p_seedStr p),
                      seedInt := Some (seedToInt (p_seedStr p))\<rparr>"
  from tick_after_reset [OF assms(2)] False obtain r' where "tick ?m1 p = Inr (m', r')"
    by blast
  moreover have "seedStr ?m1 = Some (p_seedStr p)" by simp
  moreover have "distinct (map_keys (loaded ?m1))" by (simp add: map_keys_def)
  ultimately show ?thesis using tick_same_seed [of ?m1 p] by auto
qed

lemma ticks_loaded_distinct:
  "distinct (map_keys (loaded m)) \<Longrightarrow> ticks m ps = Inr (m', rs) \<Longrightarrow>
   distinct (map_keys (loaded m'))"
proof (induction ps arbitrary: m rs)
  case Nil
  then show ?case by simp
next
  case (Cons p ps)
  from Cons.prems(2) obtain m1 r1 rs1 where "tick m p = Inr (m1, r1)"
    "ticks m1 ps = Inr (m', rs1)"
    by (auto split: sum.splits)
  then show ?case using Cons.IH Cons.prems(1) tick_loaded_distinct by blast
qed

lemma reachable_loaded_distinct:
  "new_ChunkManager options = Inr (Manager m0) \<Longrightarrow> ticks m0 ps = Inr (m, rs) \<Longrightarrow>
   distinct (map_keys (loaded m))"
proof -
  assume "new_ChunkManager options = Inr (Manager m0)" and run: "ticks m0 ps = Inr (m, rs)"
  then have "loaded m0 = []"
    by (auto simp: new_ChunkManager_def Let_def split: if_splits number.splits)
  then have "distinct (map_keys (loaded m0))" by (simp add: map_keys_def)
  then show ?thesis using run by (rule ticks_loaded_distinct)
qed


text \<open>The scenarios of the manager's tests that the code meets, evaluated on the model.\<close>

lemma test_negative_safe_center:
  "map_sum id (\<lambda>(m, r). (request r, unloadKeys r))
     (tick \<lparr>activeRadius = 0, removeRadius = 1, loaded = [], inflight = [], queued = [],
            readyToApply = [], seedStr = None, seedInt = None\<rparr>
        (tickAt (- 1) 16 ''demo'' None)) =
   Inr (Some \<lparr>req_seedStr = ''demo'', req_seedInt = seedToInt ''demo'',
               req_cx = Some (- 1), req_cz = Some 1\<rparr>, [])"
  by code_simp

lemma test_keeps_chunks_inside_removeRadius:
  "map_sum id (\<lambda>(m, rs). (map request rs, map (map_option key \<circ> tick_apply) rs,
                            map unloadKeys rs, map_keys (loaded m)))
     (ticks \<lparr>activeRadius = 0, removeRadius = 1, loaded = [], inflight = [], queued = [],
             readyToApply = [], seedStr = None, seedInt = None\<rparr>
        [tickAt 0 0 ''demo'' None, tickAt 0 0 ''demo'' (Some [makeResponse 0 0]),
         tickAt 16 0 ''demo'' None, tickAt 0 0 ''demo'' None]) =
   Inr ([Some \<lparr>req_seedStr = ''demo'', req_seedInt = seedToInt ''demo'',
                req_cx = Some 0, req_cz = Some 0\<rparr>,
         None,
         Some \<lparr>req_seedStr = ''demo'', req_seedInt = seedToInt ''demo'',
                req_cx = Some 1, req_cz = Some 0\<rparr>,
         None],
        [None, Some ''0,0'', None, None],
        [[], [], [], []],
        [''0,0''])"
  by code_simp

lemma test_unloads_chunks_leaving_removeRadius:
  "map_sum id (\<lambda>(m, rs). (map unloadKeys rs, map_keys (loaded m)))
     (ticks \<lparr>activeRadius = 0, removeRadius = 1, loaded = [], inflight = [], queued = [],
             readyToApply = [], seedStr = None, seedInt = None\<rparr>
        [tickAt 0 0 ''demo'' None, tickAt 0 0 ''demo'' (Some [makeResponse 0 0]),
         tickAt 32 0 ''demo'' None]) =
   Inr ([[], [], [''0,0'']], [])"
  by code_simp

lemma test_needed_keys_square:
  "computeNeededChunkKeys 0 0 (Finite 1) =
     Some [''0,0'', ''-1,-1'', ''0,-1'', ''1,-1'', ''-1,0'', ''1,0'', ''-1,1'', ''0,1'', ''1,1'']"
proof -
  have "computeNeededChunkKeys_int 0 0 1 =
     [''0,0'', ''-1,-1'', ''0,-1'', ''1,-1'', ''-1,0'', ''1,0'', ''-1,1'', ''0,1'', ''1,1'']"
    by code_simp
  then show ?thesis by (simp add: computeNeededChunkKeys_finite)
qed

section \<open>Properties of world/getVoxel.ts\<close>

text \<open>
  The surface cache is transparent: starting from the empty cache of a new entry, every
  call returns the computed profile.
\<close>

lemma surfaceCacheSound_empty:
  "surfaceCacheSound entry \<lparr>surfaceCache = [], surfaceCacheSize = 0\<rparr>"
  by (simp add: surfaceCacheSound_def)

lemma map_set_entries: "set (map_set m k v) \<subseteq> insert (k, v) (set m)"
  by (induction m) auto

lemma map_delete_entries: "set (map_delete m k) \<subseteq> set m"
  by (auto simp: map_delete_def)

lemma map_get_entry: "map_get m k = Some v \<Longrightarrow> (k, v) \<in> set m"
  by (simp add: map_get_def map_of_SomeD)

lemma surfaceCacheSound_iff:
  "surfaceCacheSound entry c =
     (\<forall>x row z p. (x, row) \<in> set (surfaceCache c) \<longrightarrow> (z, p) \<in> set row \<longrightarrow>
                   p = computeSurfaceProfile entry x z)"
  by (auto simp: surfaceCacheSound_def list_all_iff)

lemma evictOldest_sound:
  assumes "surfaceCacheSound entry c"
  shows "surfaceCacheSound entry (evictOldest c)"
proof -
  have sub: "(x, row) \<in> set (surfaceCache (evictOldest c)) \<Longrightarrow>
        \<exists>row0. (x, row0) \<in> set (surfaceCache c) \<and> set row \<subseteq> set row0" for x row
    using map_set_entries [of "surfaceCache c"] map_delete_entries [of "surfaceCache c"]
      map_delete_entries
    by (fastforce simp: evictOldest_def Let_def split: if_splits list.splits prod.splits)
  show ?thesis
    unfolding surfaceCacheSound_iff
  proof (intro allI impI)
    fix x row z p
    assume "(x, row) \<in> set (surfaceCache (evictOldest c))" and zp: "(z, p) \<in> set row"
    then obtain row0 where "(x, row0) \<in> set (surfaceCache c)" "set row \<subseteq> set row0"
      using sub by blast
    then show "p = computeSurfaceProfile entry x z"
      using assms zp unfolding surfaceCacheSound_iff by blast
  qed
qed

lemma getSurfaceProfileCached_transparent:
  assumes "surfaceCacheSound entry c"
  shows "fst (getSurfaceProfileCached entry c x z) = computeSurfaceProfile entry x z \<and>
         surfaceCacheSound entry (snd (getSurfaceProfileCached entry c x z))"
proof (cases "Option.bind (map_get (surfaceCache c) x) (\<lambda>row. map_get row z)")
  case (Some cached)
  then obtain row where "map_get (surfaceCache c) x = Some row" "map_get row z = Some cached"
    by (auto simp: bind_eq_Some_conv)
  then have "(x, row) \<in> set (surfaceCache c)" "(z, cached) \<in> set row"
    by (simp_all add: map_get_entry)
  then have "cached = computeSurfaceProfile entry x z"
    using assms unfolding surfaceCacheSound_iff by blast
  then show ?thesis using Some assms by (simp add: getSurfaceProfileCached_def)
next
  case None
  define c1 where "c1 = evictOldest c"
  define targetRow where
    "targetRow = (case map_get (surfaceCache c1) x of None \<Rightarrow> [] | Some row \<Rightarrow> row)"
  define rows' where
    "rows' = map_set (surfaceCache c1) x (map_set targetRow z (computeSurfaceProfile entry x z))"
  have s1: "surfaceCacheSound entry c1" unfolding c1_def using assms by (rule evictOldest_sound)
  have target: "(z', p) \<in> set targetRow \<Longrightarrow> p = computeSurfaceProfile entry x z'" for z' p
  proof (cases "map_get (surfaceCache c1) x")
    case None
    assume "(z', p) \<in> set targetRow"
    then show ?thesis using None by (simp add: targetRow_def)
  next
    case (Some row)
    assume "(z', p) \<in> set targetRow"
    then have "(z', p) \<in> set row" using Some by (simp add: targetRow_def)
    moreover have "(x, row) \<in> set (surfaceCache c1)" using Some by (rule map_get_entry)
    ultimately show ?thesis using s1 unfolding surfaceCacheSound_iff by blast
  qed
  have new_row: "(z', p) \<in> set (map_set targetRow z (computeSurfaceProfile entry x z)) \<Longrightarrow>
        p = computeSurfaceProfile entry x z'" for z' p
    using map_set_entries [of targetRow z "computeSurfaceProfile entry x z"] target by auto
  have "(x', row) \<in> set rows' \<Longrightarrow> (z', p) \<in> set row \<Longrightarrow>
        p = computeSurfaceProfile entry x' z'" for x' row z' p
    using map_set_entries [of "surfaceCache c1" x
        "map_set targetRow z (computeSurfaceProfile entry x z)"] new_row s1
    unfolding rows'_def surfaceCacheSound_iff by blast
  then have "surfaceCacheSound entry \<lparr>surfaceCache = rows', surfaceCacheSize = n\<rparr>" for n
    unfolding surfaceCacheSound_iff by auto
  then show ?thesis
    using None
    by (simp add: getSurfaceProfileCached_def Let_def c1_def [symmetric] targetRow_def [symmetric]
        rows'_def [symmetric])
qed

text \<open>
  C10. \<open>isSolidTerrainVoxel\<close> is true exactly when \<open>y\<close> is at most the surface height of
  the column; village structures play no part. So a cell between one and four above the
  surface where \<open>getVoxel\<close> gives Stone or Dirt (a hut wall or roof) is reported as not
  solid.
\<close>

theorem solidity_ignores_structures:
  "isSolidTerrainVoxel noise seed x y z = (y \<le> getSurfaceHeight noise seed x z) \<and>
   (getSurfaceHeight noise seed x z + 1 \<le> y \<and> y \<le> getSurfaceHeight noise seed x z + 4 \<and>
    (getVoxel noise seed x y z = VOXEL_STONE \<or> getVoxel noise seed x y z = VOXEL_DIRT) \<longrightarrow>
    \<not> isSolidTerrainVoxel noise seed x y z)"
  by (simp add: isSolidTerrainVoxel_def)

text \<open>Such a cell exists: with the flat example noise, a corner of the first hut.\<close>

lemma flat_base: "getBaseHeight (flatNoise seed) x z = 20"
  by (simp add: getBaseHeight_def flatNoise_def Let_def clamp_def smoothstep_def lerp_def
      TERRAIN_BASE_HEIGHT_def TERRAIN_PLAINS_AMPLITUDE_def TERRAIN_HILLS_AMPLITUDE_def
      TERRAIN_MOUNTAIN_AMPLITUDE_def)

lemma flat_river: "getRiverDepth (flatNoise seed) x z = 0"
  by (simp add: getRiverDepth_def flatNoise_def Let_def RIVER_THRESHOLD_def)

lemma sqrt100: "sqrt 100 = 10"
  using real_sqrt_abs [of 10] by simp

lemma flat_village: "getVillageShape (flatNoise seed) 28 30 =
   \<lparr>vs_isVillage = True, vs_isVillageRoad = False, vs_localX = 28, vs_localZ = 30,
          vs_villageCenterX = 36, vs_villageCenterZ = 36,
          villageBaseHeight = 20, flattenBlend = 1\<rparr>"
  by (simp add: getVillageShape_def flatNoise_def Let_def VILLAGE_CELL_SIZE_def VILLAGE_RADIUS_def
      VILLAGE_FLATTEN_BAND_def TERRAIN_BASE_HEIGHT_def VILLAGE_ROAD_HALF_WIDTH_def clamp_def sqrt100)

lemma flat_profile: "getSurfaceProfile flatNoise seed 28 30 =
   \<lparr>surfaceHeight = 20, baseHeight = 20, isRiver = False,
          isVillage = True, isVillageRoad = False, localX = 28, localZ = 30,
          villageCenterX = 36, villageCenterZ = 36\<rparr>"
  by (simp add: getSurfaceProfile_def computeSurfaceProfile_def flat_base flat_river
      flat_village Let_def
      TERRAIN_BASE_HEIGHT_def Math_round_def lerp_def)

lemma flat_wall: "getVoxel flatNoise seed 28 21 30 = VOXEL_STONE"
  by (simp add: getVoxel_def flat_profile Let_def getVillageStructureVoxel_def HUT_TEMPLATES_def
      DIRT_LAYER_DEPTH_def)

theorem solidity_ignores_structures_witness:
  "getSurfaceHeight flatNoise ''demo'' 28 30 + 1 \<le> 21 \<and>
   21 \<le> getSurfaceHeight flatNoise ''demo'' 28 30 + 4 \<and>
   getVoxel flatNoise ''demo'' 28 21 30 = VOXEL_STONE \<and>
   \<not> isSolidTerrainVoxel flatNoise ''demo'' 28 21 30"
  using solidity_ignores_structures [of flatNoise "''demo''" 28 21 30]
  by (simp add: flat_wall getSurfaceHeight_def flat_profile)


section \<open>Properties of world/buildChunkVoxels.ts\<close>

lemma fold_update_distinct:
  assumes "inj_on f (set ts)" and "\<forall>t \<in> set ts. f t < length xs"
  shows "length (fold (\<lambda>t ys. ys[f t := g t]) ts xs) = length xs \<and>
         (\<forall>t \<in> set ts. fold (\<lambda>t ys. ys[f t := g t]) ts xs ! f t = g t)"
  using assms
proof (induction ts rule: rev_induct)
  case Nil
  then show ?case by simp
next
  case (snoc t ts)
  let ?ys = "fold (\<lambda>t ys. ys[f t := g t]) ts xs"
  have inj: "inj_on f (set ts)" using snoc.prems(1) by (simp add: inj_on_def)
  have ih: "length ?ys = length xs" "\<forall>t \<in> set ts. ?ys ! f t = g t"
    using snoc.IH [OF inj] snoc.prems(2) by simp_all
  have ft: "f t < length ?ys" using snoc.prems(2) ih(1) by simp
  have "(?ys[f t := g t]) ! f t' = g t'" if "t' \<in> set (ts @ [t])" for t'
  proof (cases "f t' = f t")
    case True
    then have "t' = t" using snoc.prems(1) that by (auto simp: inj_on_def)
    then show ?thesis using ft by simp
  next
    case False
    then have "t' \<in> set ts" using that by auto
    then show ?thesis using False ih(2) by simp
  qed
  then show ?case using ih(1) by simp
qed

lemma fold_concat_eq: "fold f (concat xss) = fold (fold f) xss"
  by (induction xss) simp_all

lemma build_as_fold:
  "buildChunkVoxelsWithOverrides chunkHeight noise seed chunkX chunkZ isDestroyed =
     fold (\<lambda>t ys. ys[(case t of (py, pz, px) \<Rightarrow> indexOf px py pz) :=
                       cellVoxel noise seed chunkX chunkZ isDestroyed t])
       (paddedCells chunkHeight)
       (replicate (CHUNK_SIZE_PADDED * CHUNK_HEIGHT_PADDED chunkHeight * CHUNK_SIZE_PADDED) 0)"
  by (simp add: buildChunkVoxelsWithOverrides_def paddedCells_def cellVoxel_def Let_def
      fold_concat_eq fold_map comp_def)

lemma set_paddedCells:
  "set (paddedCells chunkHeight) =
     {(py, pz, px). py < CHUNK_HEIGHT_PADDED chunkHeight \<and> pz < CHUNK_SIZE_PADDED \<and>
                    px < CHUNK_SIZE_PADDED}"
  by (force simp: paddedCells_def)

lemma mixed_radix_inj:
  fixes a a' q q' P :: nat
  assumes "a < P" and "a' < P" and "q * P + a = q' * P + a'"
  shows "q = q' \<and> a = a'"
proof -
  have "(q * P + a) div P = q" "(q * P + a) mod P = a" using assms(1) by simp_all
  moreover have "(q' * P + a') div P = q'" "(q' * P + a') mod P = a'"
    using assms(2) by simp_all
  ultimately show ?thesis using assms(3) by simp
qed

lemma indexOf_inj:
  "inj_on (\<lambda>t. case t of (py, pz, px) \<Rightarrow> indexOf px py pz) (set (paddedCells chunkHeight))"
proof (rule inj_onI)
  fix t t'
  assume ta: "t \<in> set (paddedCells chunkHeight)"
    and tb: "t' \<in> set (paddedCells chunkHeight)"
    and te: "(case t of (py, pz, px) \<Rightarrow> indexOf px py pz) =
             (case t' of (py, pz, px) \<Rightarrow> indexOf px py pz)"
  obtain py pz px where t: "t = (py, pz, px)" by (cases t) auto
  obtain py' pz' px' where t': "t' = (py', pz', px')" by (cases t') auto
  from ta tb te have a: "(py, pz, px) \<in> set (paddedCells chunkHeight)"
    and b: "(py', pz', px') \<in> set (paddedCells chunkHeight)"
    and e: "indexOf px py pz = indexOf px' py' pz'"
    by (simp_all add: t t')
  from a b have bounds: "pz < 18" "px < 18" "pz' < 18" "px' < 18"
    by (simp_all add: set_paddedCells CHUNK_SIZE_PADDED_def CHUNK_SIZE_def)
  from e have eq: "(py * 18 + pz) * 18 + px = (py' * 18 + pz') * 18 + px'"
    by (simp add: indexOf_def PADDED_SLICE_AREA_def CHUNK_SIZE_PADDED_def CHUNK_SIZE_def)
  from mixed_radix_inj [OF bounds(2) bounds(4) eq]
  have x: "px = px'" and rest: "py * 18 + pz = py' * 18 + pz'" by simp_all
  from mixed_radix_inj [OF bounds(1) bounds(3) rest] x
  show "t = t'" by (simp add: t t')
qed

lemma indexOf_bound:
  "t \<in> set (paddedCells chunkHeight) \<Longrightarrow>
   (case t of (py, pz, px) \<Rightarrow> indexOf px py pz) <
     CHUNK_SIZE_PADDED * CHUNK_HEIGHT_PADDED chunkHeight * CHUNK_SIZE_PADDED"
  by (auto simp: set_paddedCells indexOf_def PADDED_SLICE_AREA_def CHUNK_SIZE_PADDED_def
      CHUNK_SIZE_def CHUNK_HEIGHT_PADDED_def)



text \<open>
  C3. For every seed, chunk and destruction predicate the buffer holds, at every padded cell
  \<open>(px, py, pz)\<close>, Air when the predicate is true at world position
  \<open>(cx*chunkSize + (px-1), py-1, cz*chunkSize + (pz-1))\<close> and the voxel of \<open>getVoxel\<close> at
  that position otherwise; with no predicate it holds the voxel of \<open>getVoxel\<close>. The
  buffer has one entry per padded cell.
\<close>

theorem buildChunkVoxels_cells:
  assumes "px < CHUNK_SIZE_PADDED" and "py < CHUNK_HEIGHT_PADDED chunkHeight"
    and "pz < CHUNK_SIZE_PADDED"
  shows "buildChunkVoxelsWithOverrides chunkHeight noise seed chunkX chunkZ (Some isDestroyed) !
           indexOf px py pz =
         (if isDestroyed (chunkX * CHUNK_SIZE + (int px - 1)) (int py - 1)
               (chunkZ * CHUNK_SIZE + (int pz - 1))
          then VOXEL_AIR
          else getVoxel noise seed (chunkX * CHUNK_SIZE + (int px - 1)) (int py - 1)
                 (chunkZ * CHUNK_SIZE + (int pz - 1))) \<and>
         buildChunkVoxelsWithOverrides chunkHeight noise seed chunkX chunkZ None !
           indexOf px py pz =
         getVoxel noise seed (chunkX * CHUNK_SIZE + (int px - 1)) (int py - 1)
           (chunkZ * CHUNK_SIZE + (int pz - 1)) \<and>
         length (buildChunkVoxelsWithOverrides chunkHeight noise seed chunkX chunkZ
                   (Some isDestroyed)) =
           CHUNK_SIZE_PADDED * CHUNK_HEIGHT_PADDED chunkHeight * CHUNK_SIZE_PADDED"
proof -
  have mem: "(py, pz, px) \<in> set (paddedCells chunkHeight)"
    using assms by (simp add: set_paddedCells)
  have cells: "length (buildChunkVoxelsWithOverrides chunkHeight noise seed chunkX chunkZ d) =
        CHUNK_SIZE_PADDED * CHUNK_HEIGHT_PADDED chunkHeight * CHUNK_SIZE_PADDED \<and>
      (\<forall>t \<in> set (paddedCells chunkHeight).
         buildChunkVoxelsWithOverrides chunkHeight noise seed chunkX chunkZ d !
           (case t of (py, pz, px) \<Rightarrow> indexOf px py pz) =
         cellVoxel noise seed chunkX chunkZ d t)" for d
    unfolding build_as_fold
    using fold_update_distinct [OF indexOf_inj, of chunkHeight
        "replicate (CHUNK_SIZE_PADDED * CHUNK_HEIGHT_PADDED chunkHeight * CHUNK_SIZE_PADDED) 0"
        "cellVoxel noise seed chunkX chunkZ d"]
      indexOf_bound [of _ chunkHeight]
    by simp
  have some: "buildChunkVoxelsWithOverrides chunkHeight noise seed chunkX chunkZ
                (Some isDestroyed) ! indexOf px py pz =
              cellVoxel noise seed chunkX chunkZ (Some isDestroyed) (py, pz, px)"
    using cells [of "Some isDestroyed"] mem by fastforce
  have none: "buildChunkVoxelsWithOverrides chunkHeight noise seed chunkX chunkZ None !
                indexOf px py pz =
              cellVoxel noise seed chunkX chunkZ None (py, pz, px)"
    using cells [of None] mem by fastforce
  show ?thesis
    unfolding some none VOXEL_AIR_def using cells [of "Some isDestroyed"]
    by (simp add: cellVoxel_def)
qed

theorem buildChunkVoxels_cells_witness:
  "(0::nat) < CHUNK_SIZE_PADDED \<and> (1::nat) < CHUNK_HEIGHT_PADDED 4 \<and> (2::nat) < CHUNK_SIZE_PADDED \<and>
   buildChunkVoxelsWithOverrides 4 flatNoise ''demo'' (- 1) 2 (Some (\<lambda>x y z. y = 0)) !
     indexOf 0 1 2 = VOXEL_AIR"
proof -
  have h1: "(0::nat) < CHUNK_SIZE_PADDED" by (simp add: CHUNK_SIZE_PADDED_def CHUNK_SIZE_def)
  have h2: "(1::nat) < CHUNK_HEIGHT_PADDED 4" by (simp add: CHUNK_HEIGHT_PADDED_def)
  have h3: "(2::nat) < CHUNK_SIZE_PADDED" by (simp add: CHUNK_SIZE_PADDED_def CHUNK_SIZE_def)
  from buildChunkVoxels_cells [OF h1 h2 h3, of flatNoise "''demo''" "- 1" 2 "\<lambda>x y z. y = 0"]
  have "buildChunkVoxelsWithOverrides 4 flatNoise ''demo'' (- 1) 2 (Some (\<lambda>x y z. y = 0)) !
     indexOf 0 1 2 = VOXEL_AIR" by simp
  then show ?thesis using h1 h2 h3 by simp
qed


section \<open>Properties of mesh/greedyMesh.ts\<close>

lemma emitQuad_counts:
  "arr_quadCount (emitQuad st d w u v width height normalSign voxelId) = arr_quadCount st + 1 \<and>
   length (arr_positions (emitQuad st d w u v width height normalSign voxelId)) =
     length (arr_positions st) + 12 \<and>
   length (arr_normals (emitQuad st d w u v width height normalSign voxelId)) =
     length (arr_normals st) + 12 \<and>
   length (arr_colors (emitQuad st d w u v width height normalSign voxelId)) =
     length (arr_colors st) + 12 \<and>
   length (arr_indices (emitQuad st d w u v width height normalSign voxelId)) =
     length (arr_indices st) + 6"
  by (simp add: emitQuad_def pushVertex_def Let_def split_beta)

lemma emitQuad_indices:
  "arr_indices (emitQuad st d w u v width height normalSign voxelId) =
     arr_indices st @
       (let base = length (arr_positions st) div 3
        in if normalSign > 0 then [base, base + 1, base + 2, base, base + 2, base + 3]
           else [base, base + 2, base + 1, base, base + 3, base + 2])"
  by (simp add: emitQuad_def pushVertex_def Let_def split_beta)

lemma emitQuad_inv:
  assumes "meshInv st"
  shows "meshInv (emitQuad st d w u v width height normalSign voxelId)"
proof -
  let ?st' = "emitQuad st d w u v width height normalSign voxelId"
  have q: "arr_quadCount ?st' = arr_quadCount st + 1" using emitQuad_counts by blast
  have base: "length (arr_positions st) div 3 = 4 * arr_quadCount st"
    using assms by (simp add: meshInv_def)
  have old: "list_all (\<lambda>i. i < 4 * (arr_quadCount st + 1)) (arr_indices st)"
    using assms by (auto simp: meshInv_def list_all_iff)
  have "list_all (\<lambda>i. i < 4 * arr_quadCount ?st') (arr_indices ?st')"
    unfolding q emitQuad_indices base Let_def using old by simp
  then show ?thesis
    using assms emitQuad_counts [of st d w u v width height normalSign voxelId]
    by (simp add: meshInv_def)
qed

lemma scanRow_inv:
  "meshInv (snd ms) \<Longrightarrow> meshInv (snd (scanRow d w sizeU sizeV v u ms))"
proof (induction d w sizeU sizeV v u ms rule: scanRow.induct)
  case (1 d w sizeU sizeV v u msk st)
  show ?case
  proof (cases "u < sizeU")
    case False
    then have "scanRow d w sizeU sizeV v u (msk, st) = (msk, st)"
      by (subst scanRow.simps) simp
    then show ?thesis using "1.prems" by (simp del: scanRow.simps)
  next
    case True
    show ?thesis
    proof (cases "typedArray_at msk (int (v * sizeU + u)) = Some 0")
      case zero: True
      have "scanRow d w sizeU sizeV v u (msk, st) = scanRow d w sizeU sizeV v (u + 1) (msk, st)"
        apply (subst scanRow.simps)
        using True zero by (simp del: scanRow.simps)
      moreover have "meshInv (snd (scanRow d w sizeU sizeV v (u + 1) (msk, st)))"
        by (rule "1.IH"(1) [OF True refl refl zero "1.prems"])
      ultimately show ?thesis by (simp del: scanRow.simps)
    next
      case nonzero: False
      define signedVoxel where "signedVoxel = typedArray_at msk (int (v * sizeU + u))"
      define width where "width = growWidth msk sizeU u (v * sizeU + u) signedVoxel 1"
      define height where "height = growHeight msk sizeU sizeV u v width signedVoxel 1"
      define normalSign :: int where
        "normalSign = (case signedVoxel of Some n \<Rightarrow> if n > 0 then 1 else - 1 | None \<Rightarrow> - 1)"
      define st' where "st' = emitQuad st d (int w) (int u) (int v) (int width) (int height)
                                 normalSign (map_option abs signedVoxel)"
      define msk' where "msk' = clearRect msk sizeU u v width height"
      have inv': "meshInv (snd (msk', st'))"
        using "1.prems" unfolding st'_def by (simp add: emitQuad_inv)
      have nz: "signedVoxel \<noteq> Some 0" using nonzero by (simp add: signedVoxel_def)
      have "meshInv (snd (scanRow d w sizeU sizeV v (u + width) (msk', st')))"
        by (rule "1.IH"(2) [OF True refl signedVoxel_def nz width_def height_def normalSign_def
              refl st'_def msk'_def inv'])
      moreover have "scanRow d w sizeU sizeV v u (msk, st) =
          scanRow d w sizeU sizeV v (u + width) (msk', st')"
        apply (subst scanRow.simps)
        unfolding signedVoxel_def width_def height_def normalSign_def st'_def msk'_def Let_def
        using True nonzero by (simp del: scanRow.simps)
      ultimately show ?thesis by (simp del: scanRow.simps)
    qed
  qed
qed


lemma scanMask_inv:
  "meshInv (snd ms) \<Longrightarrow> meshInv (snd (scanMask d w sizeU sizeV ms))"
proof -
  have "meshInv (snd ms) \<Longrightarrow>
        meshInv (snd (fold (\<lambda>v ms'. scanRow d w sizeU sizeV v 0 ms') vs ms))" for vs
    by (induction vs arbitrary: ms) (simp_all add: scanRow_inv)
  then show "meshInv (snd ms) \<Longrightarrow> meshInv (snd (scanMask d w sizeU sizeV ms))"
    by (simp add: scanMask_def)
qed

lemma meshSlice_inv:
  "meshInv st \<Longrightarrow> meshInv (meshSlice voxels dims d sizeU sizeV w st)"
  unfolding meshSlice_def by (rule scanMask_inv) simp

lemma meshAxis_inv:
  "meshInv st \<Longrightarrow> meshInv (meshAxis voxels dims inner d st)"
proof -
  have "meshInv st \<Longrightarrow> meshInv (fold (meshSlice voxels dims d sizeU sizeV) ws st)"
    for sizeU sizeV ws
    by (induction ws arbitrary: st) (simp_all add: meshSlice_inv)
  then show "meshInv st \<Longrightarrow> meshInv (meshAxis voxels dims inner d st)"
    unfolding meshAxis_def Let_def by blast
qed

lemma meshAxes_inv:
  "meshInv st \<Longrightarrow> meshInv (fold (meshAxis voxels dims inner) ds st)"
  by (induction ds arbitrary: st) (simp_all add: meshAxis_inv)

text \<open>
  C4. Whenever \<open>greedyMesh\<close> returns a payload, whatever the buffer and the dimensions:
  \<open>positions\<close>, \<open>normals\<close> and \<open>colors\<close> have the same length, \<open>indices\<close> has
  \<open>quadCount \<times> 6\<close> entries (and \<open>indexCount\<close> is that length), the length of
  \<open>positions\<close> is a multiple of 3, and every index is below \<open>positions.length / 3\<close>.
\<close>

theorem greedyMesh_payload_consistent:
  assumes "greedyMesh voxels dims = Inr p"
  shows "length (positions p) = length (normals p) \<and>
         length (normals p) = length (colors p) \<and>
         length (indices p) = quadCount p * 6 \<and>
         indexCount p = length (indices p) \<and>
         length (positions p) = 3 * (length (positions p) div 3) \<and>
         (\<forall>i \<in> set (indices p). i < length (positions p) div 3)"
proof -
  define st where "st = fold (meshAxis voxels dims
      [nat (dims_x dims - 2), nat (dims_y dims - 2), nat (dims_z dims - 2)]) [0, 1, 2]
                       \<lparr>arr_positions = [], arr_normals = [], arr_colors = [],
                        arr_indices = [], arr_quadCount = 0\<rparr>"
  have "meshInv \<lparr>arr_positions = [], arr_normals = [], arr_colors = [],
                        arr_indices = [], arr_quadCount = 0\<rparr>"
    by (simp add: meshInv_def)
  then have inv: "meshInv st" unfolding st_def by (rule meshAxes_inv)
  have p: "p = \<lparr>positions = arr_positions st, normals = arr_normals st,
                     colors = arr_colors st, indices = arr_indices st,
                     quadCount = arr_quadCount st, indexCount = length (arr_indices st)\<rparr>"
    using assms by (simp add: greedyMesh_def Let_def st_def split: if_splits)
  show ?thesis
    using inv unfolding p meshInv_def by (simp add: list_all_iff)
qed

theorem greedyMesh_payload_consistent_witness:
  "\<exists>p. greedyMesh ((replicate 36 VOXEL_AIR)[17 := VOXEL_GRASS, 18 := VOXEL_STONE])
          \<lparr>dims_x = 4, dims_y = 3, dims_z = 3\<rparr> = Inr p \<and>
       length (positions p) = length (normals p) \<and>
       length (normals p) = length (colors p) \<and>
       length (indices p) = quadCount p * 6 \<and>
       indexCount p = length (indices p) \<and>
       list_all (\<lambda>i. i < length (positions p) div 3) (indices p)"
proof -
  have "\<exists>p. greedyMesh ((replicate 36 VOXEL_AIR)[17 := VOXEL_GRASS, 18 := VOXEL_STONE])
          \<lparr>dims_x = 4, dims_y = 3, dims_z = 3\<rparr> = Inr p"
    by (simp add: greedyMesh_def Let_def)
  then obtain p where p: "greedyMesh ((replicate 36 VOXEL_AIR)[17 := VOXEL_GRASS, 18 := VOXEL_STONE])
          \<lparr>dims_x = 4, dims_y = 3, dims_z = 3\<rparr> = Inr p" ..
  from greedyMesh_payload_consistent [OF p] p show ?thesis
    by (auto simp: list_all_iff)
qed

text \<open>
  C8. \<open>greedyMesh\<close> fails, with its one error, exactly when a padded dimension is below
  3; when all three are at least 3 it returns a payload, whatever the buffer (every loop
  of the mesher terminates).
\<close>

theorem greedyMesh_domain_error:
  "(greedyMesh voxels dims = Inl (Error ''greedyMesh requires padded dimensions >= 3 on all axes''))
     = (dims_x dims < 3 \<or> dims_y dims < 3 \<or> dims_z dims < 3) \<and>
   isl (greedyMesh voxels dims) = (dims_x dims < 3 \<or> dims_y dims < 3 \<or> dims_z dims < 3) \<and>
   (\<not> (dims_x dims < 3 \<or> dims_y dims < 3 \<or> dims_z dims < 3)) =
     (\<exists>p. greedyMesh voxels dims = Inr p)"
  by (auto simp: greedyMesh_def Let_def)

theorem greedyMesh_domain_error_witness:
  "greedyMesh (replicate 50 VOXEL_AIR) \<lparr>dims_x = 2, dims_y = 5, dims_z = 5\<rparr> =
     Inl (Error ''greedyMesh requires padded dimensions >= 3 on all axes'') \<and>
   (\<exists>p. greedyMesh (replicate 27 VOXEL_STONE) \<lparr>dims_x = 3, dims_y = 3, dims_z = 3\<rparr> = Inr p)"
  using greedyMesh_domain_error [of "replicate 50 VOXEL_AIR" "\<lparr>dims_x = 2, dims_y = 5, dims_z = 5\<rparr>"]
    greedyMesh_domain_error
      [of "replicate 27 VOXEL_STONE" "\<lparr>dims_x = 3, dims_y = 3, dims_z = 3\<rparr>"]
  by simp

lemmas scan_simps = scanMask_def scanRow.simps growWidth.simps growHeight.simps rowMatches_def
  clearRect_def typedArray_at_def Let_def upt_rec [of _ "numeral n" for n] upt_rec [of _ 1]

lemma scanMask_empty:
  "scanMask d w 3 3 ([0, 0, 0, 0, 0, 0, 0, 0, 0], st) = ([0, 0, 0, 0, 0, 0, 0, 0, 0], st)"
  by (simp add: scan_simps)

lemma scanMask_single:
  assumes "s \<noteq> 0"
  shows "snd (scanMask d w 3 3 ([s, 0, 0, 0, 0, 0, 0, 0, 0], st)) =
           emitQuad st d (int w) 0 0 1 1 (if s > 0 then 1 else - 1) (Some \<bar>s\<bar>)"
    and "snd (scanMask d w 3 3 ([0, s, 0, 0, 0, 0, 0, 0, 0], st)) =
           emitQuad st d (int w) 1 0 1 1 (if s > 0 then 1 else - 1) (Some \<bar>s\<bar>)"
    and "snd (scanMask d w 3 3 ([0, 0, s, 0, 0, 0, 0, 0, 0], st)) =
           emitQuad st d (int w) 2 0 1 1 (if s > 0 then 1 else - 1) (Some \<bar>s\<bar>)"
    and "snd (scanMask d w 3 3 ([0, 0, 0, s, 0, 0, 0, 0, 0], st)) =
           emitQuad st d (int w) 0 1 1 1 (if s > 0 then 1 else - 1) (Some \<bar>s\<bar>)"
    and "snd (scanMask d w 3 3 ([0, 0, 0, 0, s, 0, 0, 0, 0], st)) =
           emitQuad st d (int w) 1 1 1 1 (if s > 0 then 1 else - 1) (Some \<bar>s\<bar>)"
    and "snd (scanMask d w 3 3 ([0, 0, 0, 0, 0, s, 0, 0, 0], st)) =
           emitQuad st d (int w) 2 1 1 1 (if s > 0 then 1 else - 1) (Some \<bar>s\<bar>)"
    and "snd (scanMask d w 3 3 ([0, 0, 0, 0, 0, 0, s, 0, 0], st)) =
           emitQuad st d (int w) 0 2 1 1 (if s > 0 then 1 else - 1) (Some \<bar>s\<bar>)"
    and "snd (scanMask d w 3 3 ([0, 0, 0, 0, 0, 0, 0, s, 0], st)) =
           emitQuad st d (int w) 1 2 1 1 (if s > 0 then 1 else - 1) (Some \<bar>s\<bar>)"
    and "snd (scanMask d w 3 3 ([0, 0, 0, 0, 0, 0, 0, 0, s], st)) =
           emitQuad st d (int w) 2 2 1 1 (if s > 0 then 1 else - 1) (Some \<bar>s\<bar>)"
  using assms by (simp_all add: scan_simps)


lemma uint_voxel_nonzero: "v \<noteq> 0 \<Longrightarrow> uint (v::8 word) \<noteq> 0"
  by (simp add: uint_0_iff)

lemmas single_voxel_simps = greedyMesh_def indexOfPadded_def
  meshAxis_def meshSlice_def buildMask_def maskCell_def sample_def typedArray_at_def
  AXIS_U_def AXIS_V_def VOXEL_AIR_def Let_def upt_rec [of _ "numeral n" for n]
  upt_rec [of _ 1] scanMask_empty scanMask_single emitQuad_counts

lemma single_voxel_counts_x1:
  assumes "v \<noteq> 0" and "y \<in> {1, 2, 3}" and "z \<in> {1, 2, 3}"
  shows "map_sum id (\<lambda>p. (quadCount p, indexCount p))
           (greedyMesh ((replicate 125 0)
                          [nat (indexOfPadded 1 y z \<lparr>dims_x = 5, dims_y = 5, dims_z = 5\<rparr>) := v])
              \<lparr>dims_x = 5, dims_y = 5, dims_z = 5\<rparr>) = Inr (6, 36)"
  using assms(2,3) assms(1) uint_voxel_nonzero [OF assms(1)]
  by (elim insertE emptyE; simp add: single_voxel_simps)

lemma single_voxel_counts_x2:
  assumes "v \<noteq> 0" and "y \<in> {1, 2, 3}" and "z \<in> {1, 2, 3}"
  shows "map_sum id (\<lambda>p. (quadCount p, indexCount p))
           (greedyMesh ((replicate 125 0)
                          [nat (indexOfPadded 2 y z \<lparr>dims_x = 5, dims_y = 5, dims_z = 5\<rparr>) := v])
              \<lparr>dims_x = 5, dims_y = 5, dims_z = 5\<rparr>) = Inr (6, 36)"
  using assms(2,3) assms(1) uint_voxel_nonzero [OF assms(1)]
  by (elim insertE emptyE; simp add: single_voxel_simps)

lemma single_voxel_counts_x3:
  assumes "v \<noteq> 0" and "y \<in> {1, 2, 3}" and "z \<in> {1, 2, 3}"
  shows "map_sum id (\<lambda>p. (quadCount p, indexCount p))
           (greedyMesh ((replicate 125 0)
                          [nat (indexOfPadded 3 y z \<lparr>dims_x = 5, dims_y = 5, dims_z = 5\<rparr>) := v])
              \<lparr>dims_x = 5, dims_y = 5, dims_z = 5\<rparr>) = Inr (6, 36)"
  using assms(2,3) assms(1) uint_voxel_nonzero [OF assms(1)]
  by (elim insertE emptyE; simp add: single_voxel_simps)


text \<open>
  C2. A padded buffer of dimensions 5 by 5 by 5 that is Air everywhere but for one solid
  voxel \<open>v\<close> at an inner cell (padded coordinates from 1 to 3 on each axis) is meshed
  into 6 quads and 36 indices.
\<close>

theorem single_voxel_six_quads:
  assumes "v \<noteq> VOXEL_AIR" and "x \<in> {1, 2, 3}" and "y \<in> {1, 2, 3}" and "z \<in> {1, 2, 3}"
  shows "\<exists>p. greedyMesh ((replicate 125 VOXEL_AIR)
                            [nat (indexOfPadded x y z \<lparr>dims_x = 5, dims_y = 5, dims_z = 5\<rparr>) := v])
                 \<lparr>dims_x = 5, dims_y = 5, dims_z = 5\<rparr> = Inr p \<and>
             quadCount p = 6 \<and> indexCount p = 36"
proof -
  have v: "v \<noteq> 0" using assms(1) by (simp add: VOXEL_AIR_def)
  have "map_sum id (\<lambda>p. (quadCount p, indexCount p))
           (greedyMesh ((replicate 125 0)
                          [nat (indexOfPadded x y z \<lparr>dims_x = 5, dims_y = 5, dims_z = 5\<rparr>) := v])
              \<lparr>dims_x = 5, dims_y = 5, dims_z = 5\<rparr>) = Inr (6, 36)"
    using assms(2) single_voxel_counts_x1 [OF v assms(3,4)]
      single_voxel_counts_x2 [OF v assms(3,4)] single_voxel_counts_x3 [OF v assms(3,4)]
    by auto
  then show ?thesis
    unfolding VOXEL_AIR_def
    by (cases "greedyMesh ((replicate 125 0)
                          [nat (indexOfPadded x y z \<lparr>dims_x = 5, dims_y = 5, dims_z = 5\<rparr>) := v])
              \<lparr>dims_x = 5, dims_y = 5, dims_z = 5\<rparr>") auto
qed

theorem single_voxel_six_quads_witness:
  "\<exists>p. greedyMesh ((replicate 125 VOXEL_AIR)[62 := VOXEL_STONE])
          \<lparr>dims_x = 5, dims_y = 5, dims_z = 5\<rparr> = Inr p \<and>
       quadCount p = 6 \<and> indexCount p = 36"
proof -
  have h1: "VOXEL_STONE \<noteq> VOXEL_AIR" by (simp add: VOXEL_STONE_def VOXEL_AIR_def)
  have h2: "(2::int) \<in> {1, 2, 3}" by simp
  have i: "nat (indexOfPadded 2 2 2 \<lparr>dims_x = 5, dims_y = 5, dims_z = 5\<rparr>) = 62"
    by (simp add: indexOfPadded_def)
  show ?thesis
    using single_voxel_six_quads [OF h1 h2 h2 h2] unfolding i .
qed

text \<open>The other scenarios of the mesher's tests, evaluated on the model.\<close>

lemma test_solid_volume_outer_faces:
  "map_sum id quadCount
     (greedyMesh
        (fold (\<lambda>(x, y, z) voxels.
                 setInnerVoxel voxels \<lparr>dims_x = 6, dims_y = 5, dims_z = 4\<rparr> x y z VOXEL_STONE)
           (concat (map (\<lambda>y. concat (map (\<lambda>z. map (\<lambda>x. (x, y, z)) [0..3]) [0..1])) [0..2]))
           (createVoxels \<lparr>dims_x = 6, dims_y = 5, dims_z = 4\<rparr>))
        \<lparr>dims_x = 6, dims_y = 5, dims_z = 4\<rparr>) = Inr 6"
  by code_simp

lemma test_adjacent_voxels_merge:
  "map_sum id quadCount
     (greedyMesh
        (setInnerVoxel
           (setInnerVoxel (createVoxels \<lparr>dims_x = 6, dims_y = 5, dims_z = 5\<rparr>)
              \<lparr>dims_x = 6, dims_y = 5, dims_z = 5\<rparr> 1 1 1 VOXEL_STONE)
           \<lparr>dims_x = 6, dims_y = 5, dims_z = 5\<rparr> 2 1 1 VOXEL_STONE)
        \<lparr>dims_x = 6, dims_y = 5, dims_z = 5\<rparr>) = Inr 6"
  by code_simp

lemma test_halo_neighbour_suppresses_face:
  "map_sum id quadCount
     (greedyMesh
        ((setInnerVoxel (createVoxels \<lparr>dims_x = 5, dims_y = 5, dims_z = 5\<rparr>)
            \<lparr>dims_x = 5, dims_y = 5, dims_z = 5\<rparr> 0 1 1 VOXEL_STONE)
           [nat (indexOfPadded 0 2 2 \<lparr>dims_x = 5, dims_y = 5, dims_z = 5\<rparr>) := VOXEL_STONE])
        \<lparr>dims_x = 5, dims_y = 5, dims_z = 5\<rparr>) = Inr 5"
  by code_simp

end
